theory Spec2Isabelle
  imports Main "HOL-Library.Sublist"
begin

section \<open>spades\_runner.py: running SPAdes per gene, with one redo pass\<close>

text \<open>
  The script is embedded function by function. Python strings are \<open>string\<close> (ASCII text),
  Python integers are \<open>int\<close>, \<open>None\<close> is \<open>None\<close> of an option type. The interpreter
  is taken to be Python 3: files are read in text mode with universal newlines, and
  \<open>int\<close> of a string accepts surrounding white space (tab, line feed, vertical tab, form
  feed, carriage return, blank), a sign and single underscores between digits.
\<close>

subsection \<open>Python string primitives\<close>

text \<open>\<open>str(n)\<close> for an integer: the decimal numeral, with a minus sign when negative.\<close>

definition digit_char :: "nat \<Rightarrow> char" where
  "digit_char d = ''0123456789'' ! d"

function str_nat :: "nat \<Rightarrow> string" where
  "str_nat n = (if n < 10 then [digit_char n] else str_nat (n div 10) @ [digit_char (n mod 10)])"
  by pat_completeness auto
termination
  by (relation "measure (\<lambda>n. n)") auto

declare str_nat.simps [simp del]

definition str_int :: "int \<Rightarrow> string" where
  "str_int i = (if i < 0 then CHR ''-'' # str_nat (nat (- i)) else str_nat (nat i))"

text \<open>\<open>sep.join(xs)\<close>.\<close>

fun py_join :: "string \<Rightarrow> string list \<Rightarrow> string" where
  "py_join sep [] = []"
| "py_join sep [x] = x"
| "py_join sep (x # y # ys) = x @ sep @ py_join sep (y # ys)"

text \<open>\<open>s.startswith(p)\<close>.\<close>

definition startswith :: "string \<Rightarrow> string \<Rightarrow> bool" where
  "startswith s p = (take (length p) s = p)"

text \<open>
  White space as \<open>str.isspace\<close> and \<open>str.rstrip\<close> see it on ASCII text: tab, line feed,
  vertical tab, form feed, carriage return, the four separators 0x1C to 0x1F, and the
  blank.
\<close>

definition py_isspace :: "char \<Rightarrow> bool" where
  "py_isspace c = (let k = (of_char c :: nat) in (9 \<le> k \<and> k \<le> 13) \<or> (28 \<le> k \<and> k \<le> 32))"

definition py_rstrip :: "string \<Rightarrow> string" where
  "py_rstrip s = rev (dropWhile py_isspace (rev s))"

text \<open>
  The white space that \<open>int\<close> strips from ASCII text: tab, line feed, vertical tab,
  form feed, carriage return and the blank. The separators 0x1C to 0x1F are not among
  them: \<open>int("21\x1f")\<close> raises \<open>ValueError\<close>.
\<close>

definition int_isspace :: "char \<Rightarrow> bool" where
  "int_isspace c = (let k = (of_char c :: nat) in (9 \<le> k \<and> k \<le> 13) \<or> k = 32)"

definition int_strip :: "string \<Rightarrow> string" where
  "int_strip s = dropWhile int_isspace (rev (dropWhile int_isspace (rev s)))"

subsection \<open>The command builder\<close>

text \<open>
  \<open>make_spades_cmd(genelist, cov_cutoff=8, cpu=None, paired=True, kvals=None, redo=False)\<close>.
  \<open>kvals\<close> is \<open>None\<close> or a list of strings; when the list is not empty it is replaced by its
  comma-joined string, and the second test \<open>if kvals\<close> is then the truth value of that
  string (an empty string is false). \<open>if cpu\<close> is false for \<open>None\<close> and for \<open>0\<close>.
\<close>

definition kvals_joined :: "string list option \<Rightarrow> string option" where
  "kvals_joined kvals =
     (case kvals of
        None \<Rightarrow> None
      | Some [] \<Rightarrow> None
      | Some (k # ks) \<Rightarrow>
          (let s = py_join '','' (k # ks) in if s = [] then None else Some s))"

definition cpu_truthy :: "int option \<Rightarrow> int option" where
  "cpu_truthy cpu = (case cpu of None \<Rightarrow> None | Some n \<Rightarrow> if n = 0 then None else Some n)"

definition make_spades_cmd ::
  "string \<Rightarrow> int \<Rightarrow> int option \<Rightarrow> bool \<Rightarrow> string list option \<Rightarrow> bool \<Rightarrow> string" where
  "make_spades_cmd genelist cov_cutoff cpu paired kvals redo =
     (let fileflag = (if paired then ''--12'' else ''-s'') in
      case cpu_truthy cpu of
        Some n \<Rightarrow>
          (case kvals_joined kvals of
             Some kv \<Rightarrow>
               ''time parallel -j '' @ str_int n @ '' --eta spades.py --only-assembler -k '' @ kv
                 @ '' --threads 1 --cov-cutoff '' @ str_int cov_cutoff @ '' '' @ fileflag
                 @ '' {}/{}_interleaved.fasta -o {}/{}_spades :::: '' @ genelist @ '' > spades.log''
           | None \<Rightarrow>
               ''time parallel -j '' @ str_int n @ '' --eta spades.py --only-assembler --threads 1 --cov-cutoff ''
                 @ str_int cov_cutoff @ '' '' @ fileflag
                 @ '' {}/{}_interleaved.fasta -o {}/{}_spades :::: '' @ genelist @ '' > spades.log'')
      | None \<Rightarrow>
          (case kvals_joined kvals of
             Some kv \<Rightarrow>
               ''time parallel --eta spades.py --only-assembler -k '' @ kv
                 @ '' --threads 1 --cov-cutoff '' @ str_int cov_cutoff @ '' '' @ fileflag
                 @ '' {}/{}_interleaved.fasta -o {}/{}_spades :::: '' @ genelist @ '' > spades.log''
           | None \<Rightarrow>
               ''time parallel --eta spades.py --only-assembler --threads 1 --cov-cutoff ''
                 @ str_int cov_cutoff @ '' '' @ fileflag
                 @ '' {}/{}_interleaved.fasta -o {}/{}_spades :::: '' @ genelist @ '' > spades.log''))"

text \<open>
  The words of a command line, split at blanks. The words in front of the first
  \<open>spades.py\<close> are the invocation of the parallel utility with its own options.
\<close>

fun words_acc :: "string \<Rightarrow> string \<Rightarrow> string list" where
  "words_acc cur [] = (if cur = [] then [] else [cur])"
| "words_acc cur (c # cs) =
     (if c = CHR '' '' then (if cur = [] then words_acc [] cs else cur # words_acc [] cs)
      else words_acc (cur @ [c]) cs)"

definition words :: "string \<Rightarrow> string list" where
  "words s = words_acc [] s"

definition parallel_words :: "string \<Rightarrow> string list" where
  "parallel_words cmd = takeWhile (\<lambda>w. w \<noteq> ''spades.py'') (words cmd)"

text \<open>
  \<open>int(s)\<close> on a string: the white space of \<open>int_isspace\<close> is stripped at both ends,
  one sign is allowed, and the rest
  must be decimal digits, with single underscores allowed between digits. \<open>None\<close>
  stands for the \<open>ValueError\<close> that \<open>int\<close> raises.
\<close>

definition is_digit :: "char \<Rightarrow> bool" where
  "is_digit c = (let k = (of_char c :: nat) in 48 \<le> k \<and> k \<le> 57)"

definition digit_val :: "char \<Rightarrow> nat" where
  "digit_val c = of_char c - 48"

fun digits_from :: "bool \<Rightarrow> string \<Rightarrow> bool" where
  "digits_from prev [] = prev"
| "digits_from prev (c # cs) =
     (if is_digit c then digits_from True cs
      else (c = CHR ''_'' \<and> prev \<and> digits_from False cs))"

definition decimal_value :: "string \<Rightarrow> nat" where
  "decimal_value s = foldl (\<lambda>a c. 10 * a + digit_val c) 0 (filter is_digit s)"

definition py_int :: "string \<Rightarrow> int option" where
  "py_int s =
     (let t = int_strip s;
          neg = startswith t ''-'';
          body = (if startswith t ''-'' \<or> startswith t ''+'' then drop 1 t else t)
      in if digits_from False body
         then Some (if neg then - int (decimal_value body) else int (decimal_value body))
         else None)"

text \<open>
  Iterating over a file opened in text mode: \<open>\r\n\<close> and \<open>\r\<close> are read as \<open>\n\<close>, and
  each line keeps its terminator; a last line without terminator is a line too.
\<close>

fun universal_newlines :: "string \<Rightarrow> string" where
  "universal_newlines [] = []"
| "universal_newlines [c] = [if c = CHR 0x0D then CHR 0x0A else c]"
| "universal_newlines (c # d # cs) =
     (if c = CHR 0x0D \<and> d = CHR 0x0A then CHR 0x0A # universal_newlines cs
      else if c = CHR 0x0D then CHR 0x0A # universal_newlines (d # cs)
      else c # universal_newlines (d # cs))"

fun split_lines :: "string \<Rightarrow> string \<Rightarrow> string list" where
  "split_lines cur [] = (if cur = [] then [] else [cur])"
| "split_lines cur (c # cs) =
     (if c = CHR 0x0A then (cur @ [c]) # split_lines [] cs else split_lines (cur @ [c]) cs)"

definition file_lines :: "string \<Rightarrow> string list" where
  "file_lines content = split_lines [] (universal_newlines content)"

subsection \<open>Paths\<close>

text \<open>\<open>os.path.join(a, b)\<close> and \<open>os.path.basename(p)\<close> on POSIX.\<close>

definition path_join :: "string \<Rightarrow> string \<Rightarrow> string" where
  "path_join a b =
     (if startswith b ''/'' then b
      else if a = [] \<or> last a = CHR ''/'' then a @ b
      else a @ ''/'' @ b)"

definition basename :: "string \<Rightarrow> string" where
  "basename p = rev (takeWhile (\<lambda>c. c \<noteq> CHR ''/'') (rev p))"

text \<open>
  \<open>"{}/{}_spades/contigs.fasta".format(gene, gene)\<close>, the result file of a gene, and
  \<open>"{}/{}_contigs.fasta".format(gene, gene)\<close>, the flattened copy. The third path is the
  same template as the first with no \<open>format\<close> applied, as line 110 passes it to \<open>os.stat\<close>.
\<close>

definition result_path :: "string \<Rightarrow> string" where
  "result_path gene = gene @ ''/'' @ gene @ ''_spades/contigs.fasta''"

definition flat_path :: "string \<Rightarrow> string" where
  "flat_path gene = gene @ ''/'' @ gene @ ''_contigs.fasta''"

definition unformatted_path :: string where
  "unformatted_path = ''{}/{}_spades/contigs.fasta''"

subsection \<open>The environment: file system, standard error, external commands\<close>

text \<open>
  The file system maps a path, as the script writes it, to what is there: a regular file
  with its content, or a directory with the names \<open>os.listdir\<close> returns and the size
  \<open>os.stat\<close> reports for it. Two different path strings are two different places: links
  and non-normal paths are outside the model. A write replaces the node at its path and
  leaves the listings of directories as they are.

  The external commands (the parallel utility running the assembler) are a parameter
  \<open>sh\<close>: from the command line and the file system to an exit code and the file system
  they leave. The world also keeps what the script itself wrote to standard error, one
  entry per \<open>write\<close>, and the command lines it ran.
\<close>

datatype node = File string | Dir "string list" nat

type_synonym filesystem = "string \<Rightarrow> node option"

type_synonym shell = "string \<Rightarrow> filesystem \<Rightarrow> int \<times> filesystem"

record world =
  files :: filesystem
  stderr :: "string list"
  calls :: "string list"

datatype error = OSError string | ValueError string | IndexError | SystemExit int

definition isfile :: "filesystem \<Rightarrow> string \<Rightarrow> bool" where
  "isfile f p = (case f p of Some (File c) \<Rightarrow> True | Some (Dir es n) \<Rightarrow> False | None \<Rightarrow> False)"

definition isdir :: "filesystem \<Rightarrow> string \<Rightarrow> bool" where
  "isdir f p = (case f p of Some (Dir es n) \<Rightarrow> True | Some (File c) \<Rightarrow> False | None \<Rightarrow> False)"

definition stderr_write :: "string \<Rightarrow> world \<Rightarrow> world" where
  "stderr_write s w = w\<lparr>stderr := stderr w @ [s]\<rparr>"

text \<open>\<open>os.remove(p)\<close>, which the script calls only after \<open>os.path.isfile(p)\<close>.\<close>

definition os_remove :: "string \<Rightarrow> world \<Rightarrow> world" where
  "os_remove p w = w\<lparr>files := (files w)(p := None)\<rparr>"

text \<open>\<open>[x.rstrip() for x in open(p)]\<close>: \<open>OSError\<close> when \<open>p\<close> is not a regular file.\<close>

definition read_genes :: "filesystem \<Rightarrow> string \<Rightarrow> error + string list" where
  "read_genes f p =
     (case f p of
        Some (File c) \<Rightarrow> Inr (map py_rstrip (file_lines c))
      | Some (Dir es n) \<Rightarrow> Inl (OSError p)
      | None \<Rightarrow> Inl (OSError p))"

text \<open>\<open>open(p, 'w')\<close> creates or empties the file; it raises on a directory.\<close>

definition open_write :: "string \<Rightarrow> world \<Rightarrow> (error + unit) \<times> world" where
  "open_write p w =
     (if isdir (files w) p then (Inl (OSError p), w)
      else (Inr (), w\<lparr>files := (files w)(p \<mapsto> File [])\<rparr>))"

text \<open>\<open>handle.write(s)\<close> on the file opened at \<open>p\<close>.\<close>

definition file_content :: "filesystem \<Rightarrow> string \<Rightarrow> string" where
  "file_content f p = (case f p of Some (File c) \<Rightarrow> c | Some (Dir es n) \<Rightarrow> [] | None \<Rightarrow> [])"

definition file_append :: "string \<Rightarrow> string \<Rightarrow> world \<Rightarrow> world" where
  "file_append p s w = w\<lparr>files := (files w)(p \<mapsto> File (file_content (files w) p @ s))\<rparr>"

text \<open>\<open>with open(p, 'w') as h: h.write(s)\<close>.\<close>

definition write_text :: "string \<Rightarrow> string \<Rightarrow> world \<Rightarrow> (error + unit) \<times> world" where
  "write_text p s w =
     (case open_write p w of
        (Inl e, w') \<Rightarrow> (Inl e, w')
      | (Inr u, w') \<Rightarrow> (Inr (), file_append p s w'))"

definition os_listdir :: "filesystem \<Rightarrow> string \<Rightarrow> error + string list" where
  "os_listdir f p =
     (case f p of
        Some (Dir es n) \<Rightarrow> Inr es
      | Some (File c) \<Rightarrow> Inl (OSError p)
      | None \<Rightarrow> Inl (OSError p))"

text \<open>\<open>os.stat(p).st_size\<close>.\<close>

definition stat_size :: "filesystem \<Rightarrow> string \<Rightarrow> error + nat" where
  "stat_size f p =
     (case f p of
        Some (File c) \<Rightarrow> Inr (length c)
      | Some (Dir es n) \<Rightarrow> Inr n
      | None \<Rightarrow> Inl (OSError p))"

text \<open>
  \<open>shutil.copy(src, dst)\<close>: when \<open>dst\<close> is a directory the copy goes into it under the
  base name of \<open>src\<close>; the content of \<open>src\<close> is written to the target.
\<close>

definition copy_target :: "filesystem \<Rightarrow> string \<Rightarrow> string \<Rightarrow> string" where
  "copy_target f src dst = (if isdir f dst then path_join dst (basename src) else dst)"

definition shutil_copy :: "string \<Rightarrow> string \<Rightarrow> world \<Rightarrow> (error + unit) \<times> world" where
  "shutil_copy src dst w =
     (case files w src of
        Some (File c) \<Rightarrow>
          (let target = copy_target (files w) src dst in
           if isdir (files w) target then (Inl (OSError target), w)
           else (Inr (), w\<lparr>files := (files w)(target \<mapsto> File c)\<rparr>))
      | Some (Dir es n) \<Rightarrow> (Inl (OSError src), w)
      | None \<Rightarrow> (Inl (OSError src), w))"

text \<open>\<open>subprocess.call(cmd, shell=True)\<close>.\<close>

definition subprocess_call :: "shell \<Rightarrow> string \<Rightarrow> world \<Rightarrow> int \<times> world" where
  "subprocess_call sh cmd w =
     (fst (sh cmd (files w)),
      w\<lparr>files := snd (sh cmd (files w)), calls := calls w @ [cmd]\<rparr>)"

subsection \<open>The initial run\<close>

definition assembly_error_message :: string where
  "assembly_error_message =
     ''ERROR: One or more genes had an error with SPAdes assembly. This may be due to low coverage. No contigs found for the following genes:\<newline>''"

text \<open>
  The loop of \<open>spades_initial\<close> over the genes (lines 50 to 56), with the two lists
  \<open>spades_successful\<close> and \<open>spades_failed\<close> as its state.
\<close>

fun initial_classify ::
  "string list \<Rightarrow> string list \<times> string list \<Rightarrow> world
     \<Rightarrow> (error + string list \<times> string list) \<times> world" where
  "initial_classify [] acc w = (Inr acc, w)"
| "initial_classify (gene # genes) (spades_successful, spades_failed) w =
     (if isfile (files w) (result_path gene) then
        (case shutil_copy (result_path gene) (flat_path gene) w of
           (Inl e, w') \<Rightarrow> (Inl e, w')
         | (Inr u, w') \<Rightarrow> initial_classify genes (spades_successful @ [gene], spades_failed) w')
      else
        initial_classify genes (spades_successful, spades_failed @ [gene])
          (stderr_write (gene @ ''\<newline>'') w))"

text \<open>Lines 34 and 35: a stale \<open>spades.log\<close> is removed.\<close>

definition log_removed :: "world \<Rightarrow> world" where
  "log_removed w = (if isfile (files w) ''spades.log'' then os_remove ''spades.log'' w else w)"

text \<open>
  Lines 40 to 45: the two messages, the external run, and the warning on a non-zero
  exit code. \<open>n\<close> is the number of genes.
\<close>

definition initial_run :: "shell \<Rightarrow> string \<Rightarrow> nat \<Rightarrow> world \<Rightarrow> world" where
  "initial_run sh spades_cmd n w0 =
     (let w1 = stderr_write (''Running SPAdes on '' @ str_int (int n) @ '' genes\<newline>'') w0;
          w2 = stderr_write (spades_cmd @ ''\<newline>'') w1;
          exitcode = fst (subprocess_call sh spades_cmd w2);
          w3 = snd (subprocess_call sh spades_cmd w2)
      in if exitcode \<noteq> 0 then stderr_write assembly_error_message w3 else w3)"

text \<open>\<open>spades_initial(genelist, cov_cutoff=8, cpu=None, paired=True, kvals=None)\<close>.\<close>

definition spades_initial ::
  "shell \<Rightarrow> string \<Rightarrow> int \<Rightarrow> int option \<Rightarrow> bool \<Rightarrow> string list option \<Rightarrow> world
     \<Rightarrow> (error + string list) \<times> world" where
  "spades_initial sh genelist cov_cutoff cpu paired kvals w =
     (let w0 = log_removed w in
      case read_genes (files w0) genelist of
        Inl e \<Rightarrow> (Inl e, w0)
      | Inr genes \<Rightarrow>
          (let spades_cmd = make_spades_cmd genelist cov_cutoff cpu paired kvals False;
               w4 = initial_run sh spades_cmd (length genes) w0
           in case initial_classify genes ([], []) w4 of
                (Inl e, w5) \<Rightarrow> (Inl e, w5)
              | (Inr (spades_successful, spades_failed), w5) \<Rightarrow> (Inr spades_failed, w5)))"

subsection \<open>The redo pass\<close>

text \<open>
  \<open>[int(x[1:]) for x in entries if x.startswith("K")]\<close>: the first entry whose rest is
  no integer raises \<open>ValueError\<close>.
\<close>

fun parse_kmers :: "string list \<Rightarrow> error + int list" where
  "parse_kmers [] = Inr []"
| "parse_kmers (x # xs) =
     (if startswith x ''K'' then
        (case py_int (drop 1 x) of
           None \<Rightarrow> Inl (ValueError (drop 1 x))
         | Some k \<Rightarrow> (case parse_kmers xs of Inl e \<Rightarrow> Inl e | Inr ks \<Rightarrow> Inr (k # ks)))
      else parse_kmers xs)"

text \<open>
  Lines 73 and 74: the sorted k-mer values of a gene, read off the entries of its
  assembly directory. \<open>os.listdir\<close> returns the names of all entries, and the source
  looks at the names only.
\<close>

definition spades_dir :: "string \<Rightarrow> string" where
  "spades_dir gene = path_join gene (gene @ ''_spades'')"

definition list_kmers :: "filesystem \<Rightarrow> string \<Rightarrow> error + int list" where
  "list_kmers f gene =
     (case os_listdir f (spades_dir gene) of
        Inl e \<Rightarrow> Inl e
      | Inr entries \<Rightarrow>
          (case parse_kmers entries of
             Inl e \<Rightarrow> Inl e
           | Inr ks \<Rightarrow> Inr (sort ks)))"

text \<open>The entries of a gene's assembly directory whose names start with \<open>K\<close>.\<close>

definition kmer_entries :: "filesystem \<Rightarrow> string \<Rightarrow> string list" where
  "kmer_entries f gene =
     (case os_listdir f (spades_dir gene) of
        Inl e \<Rightarrow> []
      | Inr entries \<Rightarrow> filter (\<lambda>x. startswith x ''K'') entries)"

text \<open>The sorted k-mer values of a gene where the listing succeeds, and no value otherwise.\<close>

definition the_kmers :: "filesystem \<Rightarrow> string \<Rightarrow> int list" where
  "the_kmers f gene = (case list_kmers f gene of Inl e \<Rightarrow> [] | Inr ks \<Rightarrow> ks)"

text \<open>The restart command of line 85.\<close>

definition restart_cmd :: "string \<Rightarrow> int \<Rightarrow> string \<Rightarrow> string \<Rightarrow> string" where
  "restart_cmd restart_k cov_cutoff kvals gene =
     ''spades.py --restart-from '' @ restart_k @ '' -k '' @ kvals @ '' --threads 1 --cov-cutoff ''
       @ str_int cov_cutoff @ '' -o '' @ gene @ ''/'' @ gene @ ''_spades''"

text \<open>
  The first loop of \<open>rerun_spades\<close> (lines 72 to 86), with \<open>spades_duds\<close> and
  \<open>genes_redos\<close> as its state. \<open>all_kmers[:-1]\<close> is \<open>butlast\<close>; \<open>redo_kmers[-1]\<close>
  raises \<open>IndexError\<close> on an empty list.
\<close>

fun redo_loop ::
  "int \<Rightarrow> string list \<Rightarrow> string list \<times> string list \<Rightarrow> world
     \<Rightarrow> (error + string list \<times> string list) \<times> world" where
  "redo_loop cov_cutoff [] acc w = (Inr acc, w)"
| "redo_loop cov_cutoff (gene # genes) (spades_duds, genes_redos) w =
     (case list_kmers (files w) gene of
        Inl e \<Rightarrow> (Inl e, w)
      | Inr all_kmers \<Rightarrow>
          if length all_kmers < 2 then
            redo_loop cov_cutoff genes (spades_duds @ [gene], genes_redos)
              (stderr_write (''WARNING: All Kmers failed for '' @ gene @ ''!\<newline>'') w)
          else
            (let redo_kmers = map str_int (butlast all_kmers) in
             if redo_kmers = [] then (Inl IndexError, w)
             else
               (let restart_k = ''k'' @ last redo_kmers;
                    kvals = py_join '','' redo_kmers;
                    spades_cmd = restart_cmd restart_k cov_cutoff kvals gene
                in redo_loop cov_cutoff genes (spades_duds, genes_redos @ [gene])
                     (file_append ''redo_spades_commands.txt'' (spades_cmd @ ''\<newline>'') w))))"

text \<open>
  Lines 60 to 96: reading the genes, writing the restart commands and the list of duds.
  Its result is the pair of \<open>spades_duds\<close> and \<open>genes_redos\<close>.
\<close>

definition redo_prepare ::
  "string \<Rightarrow> int \<Rightarrow> world \<Rightarrow> (error + string list \<times> string list) \<times> world" where
  "redo_prepare genelist cov_cutoff w =
     (case read_genes (files w) genelist of
        Inl e \<Rightarrow> (Inl e, w)
      | Inr genes \<Rightarrow>
          (case open_write ''redo_spades_commands.txt'' w of
             (Inl e, w1) \<Rightarrow> (Inl e, w1)
           | (Inr u, w1) \<Rightarrow>
               (case redo_loop cov_cutoff genes ([], []) w1 of
                  (Inl e, w2) \<Rightarrow> (Inl e, w2)
                | (Inr (spades_duds, genes_redos), w2) \<Rightarrow>
                    (case write_text ''spades_duds.txt'' (py_join ''\<newline>'' spades_duds) w2 of
                       (Inl e, w3) \<Rightarrow> (Inl e, w3)
                     | (Inr u, w3) \<Rightarrow> (Inr (spades_duds, genes_redos), w3)))))"

text \<open>Lines 89 to 92: the command that runs the command file.\<close>

definition redo_parallel_cmd :: "int option \<Rightarrow> string" where
  "redo_parallel_cmd cpu =
     (case cpu_truthy cpu of
        Some n \<Rightarrow> ''parallel -j '' @ str_int n @ '' --eta :::: redo_spades_commands.txt > spades_redo.log''
      | None \<Rightarrow> ''parallel --eta :::: redo_spades_commands.txt > spades_redo.log'')"

text \<open>
  The second loop of \<open>rerun_spades\<close> (lines 107 to 120) over \<open>genes_redos\<close>, with
  \<open>spades_successful\<close> and \<open>spades_failed\<close> as its state. \<open>gene_failed\<close> is set on the
  two \<open>else\<close> branches, which both go on to lines 119 and 120.
\<close>

fun redo_classify ::
  "string list \<Rightarrow> string list \<times> string list \<Rightarrow> world
     \<Rightarrow> (error + string list \<times> string list) \<times> world" where
  "redo_classify [] acc w = (Inr acc, w)"
| "redo_classify (gene # genes) (spades_successful, spades_failed) w =
     (if isfile (files w) (result_path gene) then
        (case stat_size (files w) unformatted_path of
           Inl e \<Rightarrow> (Inl e, w)
         | Inr st_size \<Rightarrow>
             if st_size > 0 then
               (case shutil_copy (result_path gene) (flat_path gene) w of
                  (Inl e, w') \<Rightarrow> (Inl e, w')
                | (Inr u, w') \<Rightarrow> redo_classify genes (spades_successful @ [gene], spades_failed) w')
             else
               redo_classify genes (spades_successful, spades_failed @ [gene])
                 (stderr_write (gene @ ''\<newline>'') w))
      else
        redo_classify genes (spades_successful, spades_failed @ [gene])
          (stderr_write (gene @ ''\<newline>'') w))"

text \<open>
  Lines 98 to 105: the two messages, the external run of the command file, and the
  warning on a non-zero exit code. \<open>n\<close> is the number of genes to redo.
\<close>

definition redo_run :: "shell \<Rightarrow> string \<Rightarrow> nat \<Rightarrow> world \<Rightarrow> world" where
  "redo_run sh redo_spades_cmd n w3 =
     (let w4 = stderr_write (''Re-running SPAdes for '' @ str_int (int n) @ '' genes\<newline>'') w3;
          w5 = stderr_write (redo_spades_cmd @ ''\<newline>'') w4;
          exitcode = fst (subprocess_call sh redo_spades_cmd w5);
          w6 = snd (subprocess_call sh redo_spades_cmd w5)
      in if exitcode \<noteq> 0 then stderr_write assembly_error_message w6 else w6)"

text \<open>
  \<open>rerun_spades(genelist, cov_cutoff=8, cpu=None, paired=True)\<close>. The definition
  \<open>rerun_spades_lists\<close> keeps the four lists the function holds when it returns, in the order
  \<open>spades_successful\<close>, \<open>spades_failed\<close>, \<open>spades_duds\<close>, \<open>genes_redos\<close>; the function
  returns the second and the third.
\<close>

definition rerun_spades_lists ::
  "shell \<Rightarrow> string \<Rightarrow> int \<Rightarrow> int option \<Rightarrow> bool \<Rightarrow> world
     \<Rightarrow> (error + string list \<times> string list \<times> string list \<times> string list) \<times> world" where
  "rerun_spades_lists sh genelist cov_cutoff cpu paired w =
     (case redo_prepare genelist cov_cutoff w of
        (Inl e, w3) \<Rightarrow> (Inl e, w3)
      | (Inr (spades_duds, genes_redos), w3) \<Rightarrow>
          (let w7 = redo_run sh (redo_parallel_cmd cpu) (length genes_redos) w3
           in case redo_classify genes_redos ([], []) w7 of
                (Inl e, w8) \<Rightarrow> (Inl e, w8)
              | (Inr (spades_successful, spades_failed), w8) \<Rightarrow>
                  (Inr (spades_successful, spades_failed, spades_duds, genes_redos), w8)))"

definition rerun_spades ::
  "shell \<Rightarrow> string \<Rightarrow> int \<Rightarrow> int option \<Rightarrow> bool \<Rightarrow> world
     \<Rightarrow> (error + string list \<times> string list) \<times> world" where
  "rerun_spades sh genelist cov_cutoff cpu paired w =
     (case rerun_spades_lists sh genelist cov_cutoff cpu paired w of
        (Inl e, w') \<Rightarrow> (Inl e, w')
      | (Inr (spades_successful, spades_failed, spades_duds, genes_redos), w') \<Rightarrow>
          (Inr (spades_failed, spades_duds), w'))"

subsection \<open>Top-level control\<close>

text \<open>
  The parsed command line. \<open>--cpu\<close> defaults to 0, \<open>--cov_cutoff\<close> to 8, \<open>--kvals\<close> to
  \<open>None\<close>, \<open>--redos_only\<close> to \<open>False\<close>.
\<close>

record args =
  arg_genelist :: string
  arg_cpu :: int
  arg_cov_cutoff :: int
  arg_kvals :: "string list option"
  arg_redos_only :: bool

text \<open>
  \<open>main()\<close> after \<open>parse_args\<close>. \<open>sys.exit(1)\<close> raises \<open>SystemExit\<close>. On the redos-only
  branch the pair that \<open>rerun_spades\<close> returns is bound to \<open>spades_failed\<close> and not looked
  at again.
\<close>

definition main :: "shell \<Rightarrow> args \<Rightarrow> world \<Rightarrow> (error + unit) \<times> world" where
  "main sh a w =
     (if isfile (files w) ''failed_spades.txt'' \<and> arg_redos_only a then
        (case rerun_spades sh ''failed_spades.txt'' 8 None True w of
           (Inl e, w') \<Rightarrow> (Inl e, w')
         | (Inr spades_failed, w') \<Rightarrow> (Inr (), w'))
      else
        (case spades_initial sh (arg_genelist a) (arg_cov_cutoff a) (Some (arg_cpu a)) True (arg_kvals a) w of
           (Inl e, w1) \<Rightarrow> (Inl e, w1)
         | (Inr spades_failed, w1) \<Rightarrow>
             if length spades_failed > 0 then
               (case write_text ''failed_spades.txt'' (py_join ''\<newline>'' spades_failed) w1 of
                  (Inl e, w2) \<Rightarrow> (Inl e, w2)
                | (Inr u, w2) \<Rightarrow>
                    (case rerun_spades sh ''failed_spades.txt'' (arg_cov_cutoff a) None True w2 of
                       (Inl e, w3) \<Rightarrow> (Inl e, w3)
                     | (Inr (redo_failed, spades_duds), w3) \<Rightarrow>
                         if length redo_failed = 0
                         then (Inr (), stderr_write ''All redos completed successfully!\<newline>'' w3)
                         else (Inl (SystemExit 1), w3)))
             else (Inr (), w1)))"

text \<open>
  The exit status of the interpreter: 0 when \<open>main\<close> returns, the argument of
  \<open>sys.exit\<close>, and 1 for any other exception that nothing catches.
\<close>

definition exit_status :: "error + unit \<Rightarrow> int" where
  "exit_status r = (case r of Inr u \<Rightarrow> 0 | Inl (SystemExit n) \<Rightarrow> n | Inl e \<Rightarrow> 1)"

subsection \<open>Notions used in the proofs\<close>

text \<open>
  Two file systems that agree on every result file, on the unformatted path and on
  which paths are directories: the classification loops cannot tell them apart.
\<close>

definition same_view :: "filesystem \<Rightarrow> filesystem \<Rightarrow> bool" where
  "same_view f f' =
     ((\<forall>h. f' (result_path h) = f (result_path h))
      \<and> f' unformatted_path = f unformatted_path
      \<and> (\<forall>p. isdir f' p = isdir f p))"


text \<open>
  The line that lines 82 to 86 write for a gene whose sorted k-mer values are
  \<open>all_kmers\<close>, when there are at least two of them.
\<close>

definition restart_line :: "int \<Rightarrow> int list \<Rightarrow> string \<Rightarrow> string" where
  "restart_line cov_cutoff all_kmers gene =
     restart_cmd (''k'' @ str_int (last (butlast all_kmers))) cov_cutoff
       (py_join '','' (map str_int (butlast all_kmers))) gene @ ''\<newline>''"

text \<open>Where \<open>shutil.copy\<close> puts the result file of a gene.\<close>

definition target :: "filesystem \<Rightarrow> string \<Rightarrow> string" where
  "target f gene = copy_target f (result_path gene) (flat_path gene)"

text \<open>The value of an entry \<open>K<value>\<close>, and 0 where \<open>int\<close> raises.\<close>

definition kmer_value :: "string \<Rightarrow> int" where
  "kmer_value x = (case py_int (drop 1 x) of None \<Rightarrow> 0 | Some k \<Rightarrow> k)"

text \<open>The external commands with the same effect on the file system and exit code 0.\<close>

definition exit_zero :: "shell \<Rightarrow> shell" where
  "exit_zero sh = (\<lambda>cmd f. (0, snd (sh cmd f)))"

text \<open>
  The subdirectories of a gene's assembly directory whose names start with \<open>K\<close>: the
  entries of that name which are directories themselves. The source never asks whether
  an entry is a directory; this notion is the one the specification words.
\<close>

definition kmer_subdirs :: "filesystem \<Rightarrow> string \<Rightarrow> string list" where
  "kmer_subdirs f gene =
     filter (\<lambda>x. isdir f (path_join (spades_dir gene) x)) (kmer_entries f gene)"

subsection \<open>Sample runs\<close>

text \<open>
  A small environment on which the theorems below are exercised. The initial run of the
  assembler leaves a result file for \<open>g1\<close> and nothing but k-mer directories for the
  other genes: three for \<open>g2\<close>, one for \<open>g3\<close>, two for \<open>g4\<close>. What the redo run does
  to the file system is the parameter \<open>redo\<close>. Both runs exit with code 1.
\<close>

definition sample_dirs :: "filesystem \<Rightarrow> filesystem" where
  "sample_dirs f =
     f(''g2/g2_spades'' \<mapsto> Dir [''K21'', ''K33'', ''K55'', ''params.txt''] 4096,
       ''g3/g3_spades'' \<mapsto> Dir [''params.txt'', ''K21''] 4096,
       ''g4/g4_spades'' \<mapsto> Dir [''K33'', ''K21''] 4096)"

definition sample_shell :: "(filesystem \<Rightarrow> filesystem) \<Rightarrow> shell" where
  "sample_shell redo cmd f =
     (if startswith cmd ''time''
      then (1, (sample_dirs f)(''g1/g1_spades/contigs.fasta'' \<mapsto> File ''ACGT''))
      else (1, redo f))"

text \<open>A fresh working directory with a gene list, and one left by an earlier run.\<close>

definition sample_world :: "string \<Rightarrow> world" where
  "sample_world content =
     \<lparr>files = Map.empty(''genes.txt'' \<mapsto> File content), stderr = [], calls = []\<rparr>"

definition redo_world :: "string \<Rightarrow> world" where
  "redo_world content =
     \<lparr>files = sample_dirs (Map.empty(''failed_spades.txt'' \<mapsto> File content)),
      stderr = [], calls = []\<rparr>"

text \<open>A command line with the defaults, with or without \<open>--redos_only\<close>.\<close>

definition sample_args :: "bool \<Rightarrow> args" where
  "sample_args redos =
     \<lparr>arg_genelist = ''genes.txt'', arg_cpu = 0, arg_cov_cutoff = 8, arg_kvals = None,
      arg_redos_only = redos\<rparr>"

text \<open>
  Three redo runs: one that assembles \<open>g2\<close> in a directory where the unformatted path
  happens to hold a file, one that assembles \<open>g2\<close> and nothing else, and one that
  assembles \<open>g2\<close> where the unformatted path holds an empty file.
\<close>

definition redo_g2_with_template :: "filesystem \<Rightarrow> filesystem" where
  "redo_g2_with_template f =
     f(''g2/g2_spades/contigs.fasta'' \<mapsto> File ''ACGT'',
       ''{}/{}_spades/contigs.fasta'' \<mapsto> File ''x'')"

definition redo_g2 :: "filesystem \<Rightarrow> filesystem" where
  "redo_g2 f = f(''g2/g2_spades/contigs.fasta'' \<mapsto> File ''ACGT'')"

definition redo_g2_empty_template :: "filesystem \<Rightarrow> filesystem" where
  "redo_g2_empty_template f =
     f(''g2/g2_spades/contigs.fasta'' \<mapsto> File ''ACGT'',
       ''{}/{}_spades/contigs.fasta'' \<mapsto> File [])"

text \<open>
  A working directory left by an earlier run with three unusual genes. The assembly
  directory of \<open>gf\<close> holds the directory \<open>K21\<close> and a regular file \<open>K33\<close>; that of
  \<open>gk\<close> holds the directories \<open>K21\<close> and \<open>K33\<close> and a regular file \<open>K55\<close>; that of
  \<open>gd\<close> holds the directories \<open>K21\<close>, \<open>K55\<close> and \<open>K055\<close>. The fourth gene is named
  \<open>{}\<close> and has the directories \<open>K21\<close> and \<open>K33\<close>.
\<close>

definition odd_world :: "string \<Rightarrow> world" where
  "odd_world content =
     \<lparr>files = Map.empty(
        ''failed_spades.txt'' \<mapsto> File content,
        ''gf/gf_spades'' \<mapsto> Dir [''K21'', ''K33''] 4096,
        ''gf/gf_spades/K21'' \<mapsto> Dir [] 4096,
        ''gf/gf_spades/K33'' \<mapsto> File [],
        ''gk/gk_spades'' \<mapsto> Dir [''K21'', ''K33'', ''K55''] 4096,
        ''gk/gk_spades/K21'' \<mapsto> Dir [] 4096,
        ''gk/gk_spades/K33'' \<mapsto> Dir [] 4096,
        ''gk/gk_spades/K55'' \<mapsto> File [],
        ''gd/gd_spades'' \<mapsto> Dir [''K21'', ''K55'', ''K055''] 4096,
        ''gd/gd_spades/K21'' \<mapsto> Dir [] 4096,
        ''gd/gd_spades/K55'' \<mapsto> Dir [] 4096,
        ''gd/gd_spades/K055'' \<mapsto> Dir [] 4096,
        ''{}/{}_spades'' \<mapsto> Dir [''K21'', ''K33''] 4096,
        ''{}/{}_spades/K21'' \<mapsto> Dir [] 4096,
        ''{}/{}_spades/K33'' \<mapsto> Dir [] 4096),
      stderr = [], calls = []\<rparr>"


text \<open>A redo run that leaves a file with the given content at the unformatted path.\<close>

definition redo_template :: "string \<Rightarrow> filesystem \<Rightarrow> filesystem" where
  "redo_template c f = f(''{}/{}_spades/contigs.fasta'' \<mapsto> File c)"

section \<open>Properties\<close>

subsection \<open>Decimal numerals and words\<close>

lemma digit_char_in: "d < 10 \<Longrightarrow> digit_char d \<in> set ''0123456789''"
  unfolding digit_char_def by (rule nth_mem) simp

lemma str_nat_chars: "set (str_nat n) \<subseteq> set ''0123456789''"
proof (induction n rule: str_nat.induct)
  case (1 n)
  show ?case
  proof (cases "n < 10")
    case True
    then show ?thesis using digit_char_in [of n] by (simp add: str_nat.simps [of n])
  next
    case False
    have "n mod 10 < 10" by simp
    then have "digit_char (n mod 10) \<in> set ''0123456789''" by (rule digit_char_in)
    with False 1 show ?thesis by (simp add: str_nat.simps [of n])
  qed
qed

lemma str_nat_nonempty: "str_nat n \<noteq> []"
  by (simp add: str_nat.simps [of n])

lemma str_int_no_blank: "CHR '' '' \<notin> set (str_int i)"
  using str_nat_chars [of "nat i"] str_nat_chars [of "nat (- i)"]
  by (auto simp: str_int_def)

lemma str_int_not_spades: "str_int i \<noteq> ''spades.py''"
proof
  assume eq: "str_int i = ''spades.py''"
  have "CHR ''s'' \<notin> set (str_int i)"
    using str_nat_chars [of "nat i"] str_nat_chars [of "nat (- i)"]
    by (auto simp: str_int_def)
  then show False by (simp add: eq)
qed

lemma str_int_nonempty: "str_int i \<noteq> []"
  by (simp add: str_int_def str_nat_nonempty)

lemma words_acc_append: "CHR '' '' \<notin> set s \<Longrightarrow> words_acc cur (s @ t) = words_acc (cur @ s) t"
  by (induction s arbitrary: cur) auto

lemma words_acc_str_int: "words_acc [] (str_int i @ CHR '' '' # t) = str_int i # words_acc [] t"
  by (simp add: words_acc_append str_int_no_blank str_int_nonempty)

subsection \<open>The command builder\<close>

lemma make_spades_cmd_example:
  "make_spades_cmd g 10 (Some 4) True (Some [''21'', ''33'']) r =
     ''time parallel -j 4 --eta spades.py --only-assembler -k 21,33 --threads 1 --cov-cutoff 10 --12 {}/{}_interleaved.fasta -o {}/{}_spades :::: ''
       @ g @ '' > spades.log''"
  by (simp add: make_spades_cmd_def cpu_truthy_def kvals_joined_def str_int_def
      str_nat.simps digit_char_def)

text \<open>
  Claim C5. With \<open>cpu = 4\<close>, \<open>kvals = ["21", "33"]\<close>, \<open>cov_cutoff = 10\<close> and paired
  input, the command contains the fragments \<open>-j 4\<close>, \<open>-k 21,33\<close>, \<open>--cov-cutoff 10\<close> and
  \<open>--12\<close>, whatever the gene list file is called.
\<close>

theorem make_spades_cmd_fragments:
  "sublist ''-j 4'' (make_spades_cmd g 10 (Some 4) True (Some [''21'', ''33'']) r)
   \<and> sublist ''-k 21,33'' (make_spades_cmd g 10 (Some 4) True (Some [''21'', ''33'']) r)
   \<and> sublist ''--cov-cutoff 10'' (make_spades_cmd g 10 (Some 4) True (Some [''21'', ''33'']) r)
   \<and> sublist ''--12'' (make_spades_cmd g 10 (Some 4) True (Some [''21'', ''33'']) r)"
proof -
  let ?cmd = "make_spades_cmd g 10 (Some 4) True (Some [''21'', ''33'']) r"
  have j: "?cmd = ''time parallel '' @ ''-j 4'' @
      ('' --eta spades.py --only-assembler -k 21,33 --threads 1 --cov-cutoff 10 --12 {}/{}_interleaved.fasta -o {}/{}_spades :::: '' @ g @ '' > spades.log'')"
    by (simp add: make_spades_cmd_example)
  have k: "?cmd = ''time parallel -j 4 --eta spades.py --only-assembler '' @ ''-k 21,33'' @
      ('' --threads 1 --cov-cutoff 10 --12 {}/{}_interleaved.fasta -o {}/{}_spades :::: '' @ g @ '' > spades.log'')"
    by (simp add: make_spades_cmd_example)
  have c: "?cmd = ''time parallel -j 4 --eta spades.py --only-assembler -k 21,33 --threads 1 '' @ ''--cov-cutoff 10'' @
      ('' --12 {}/{}_interleaved.fasta -o {}/{}_spades :::: '' @ g @ '' > spades.log'')"
    by (simp add: make_spades_cmd_example)
  have p: "?cmd = ''time parallel -j 4 --eta spades.py --only-assembler -k 21,33 --threads 1 --cov-cutoff 10 '' @ ''--12'' @
      ('' {}/{}_interleaved.fasta -o {}/{}_spades :::: '' @ g @ '' > spades.log'')"
    by (simp add: make_spades_cmd_example)
  have "sublist ''-j 4'' ?cmd" unfolding sublist_def using j by blast
  moreover have "sublist ''-k 21,33'' ?cmd" unfolding sublist_def using k by blast
  moreover have "sublist ''--cov-cutoff 10'' ?cmd" unfolding sublist_def using c by blast
  moreover have "sublist ''--12'' ?cmd" unfolding sublist_def using p by blast
  ultimately show ?thesis by blast
qed

lemma parallel_words_no_cpu:
  assumes "cpu_truthy cpu = None"
  shows "parallel_words (make_spades_cmd g cov cpu paired kv r) = [''time'', ''parallel'', ''--eta'']"
  using assms
  by (simp add: make_spades_cmd_def parallel_words_def words_def Let_def split: option.splits)

lemma parallel_words_cpu:
  assumes "cpu_truthy cpu = Some n"
  shows "parallel_words (make_spades_cmd g cov cpu paired kv r)
    = [''time'', ''parallel'', ''-j'', str_int n, ''--eta'']"
  using assms
  by (simp add: make_spades_cmd_def parallel_words_def words_def Let_def words_acc_str_int
      str_int_not_spades split: option.splits)

lemma sublist_cpu:
  assumes "cpu_truthy cpu = Some n"
  shows "sublist (''-j '' @ str_int n) (make_spades_cmd g cov cpu paired kv r)"
proof -
  have "\<exists>ss. make_spades_cmd g cov cpu paired kv r = ''time parallel '' @ (''-j '' @ str_int n) @ ss"
    using assms by (simp add: make_spades_cmd_def Let_def split: option.splits)
  then show ?thesis unfolding sublist_def by blast
qed

text \<open>
  Claim C6. When \<open>cpu\<close> is \<open>None\<close> or 0, the parallel utility is invoked with the single
  option \<open>--eta\<close>: no \<open>-j\<close> is among the words in front of \<open>spades.py\<close>. When \<open>cpu\<close> is
  a positive \<open>n\<close>, its options are \<open>-j n --eta\<close>, and the command contains \<open>-j n\<close>.
\<close>

theorem make_spades_cmd_cpu_flag:
  "(cpu = None \<or> cpu = Some 0 \<longrightarrow>
      parallel_words (make_spades_cmd g cov cpu paired kv r) = [''time'', ''parallel'', ''--eta'']
      \<and> ''-j'' \<notin> set (parallel_words (make_spades_cmd g cov cpu paired kv r)))
   \<and> (\<forall>n. cpu = Some n \<and> 0 < n \<longrightarrow>
      parallel_words (make_spades_cmd g cov cpu paired kv r)
        = [''time'', ''parallel'', ''-j'', str_int n, ''--eta'']
      \<and> sublist (''-j '' @ str_int n) (make_spades_cmd g cov cpu paired kv r))"
proof (intro conjI impI allI)
  assume "cpu = None \<or> cpu = Some 0"
  then have "cpu_truthy cpu = None" by (auto simp: cpu_truthy_def)
  then show "parallel_words (make_spades_cmd g cov cpu paired kv r) = [''time'', ''parallel'', ''--eta'']"
    by (rule parallel_words_no_cpu)
  then show "''-j'' \<notin> set (parallel_words (make_spades_cmd g cov cpu paired kv r))"
    by simp
next
  fix n assume "cpu = Some n \<and> 0 < n"
  then have t: "cpu_truthy cpu = Some n" by (auto simp: cpu_truthy_def)
  from t show "parallel_words (make_spades_cmd g cov cpu paired kv r)
        = [''time'', ''parallel'', ''-j'', str_int n, ''--eta'']"
    by (rule parallel_words_cpu)
  from t show "sublist (''-j '' @ str_int n) (make_spades_cmd g cov cpu paired kv r)"
    by (rule sublist_cpu)
qed

theorem make_spades_cmd_cpu_flag_witness:
  "parallel_words (make_spades_cmd ''genes.txt'' 8 (Some 0) True None False)
     = [''time'', ''parallel'', ''--eta'']
   \<and> parallel_words (make_spades_cmd ''genes.txt'' 8 (Some 4) True None False)
     = [''time'', ''parallel'', ''-j'', ''4'', ''--eta'']
   \<and> sublist ''-j 4'' (make_spades_cmd ''genes.txt'' 8 (Some 4) True None False)"
  using make_spades_cmd_cpu_flag [of "Some 0" "''genes.txt''" 8 True None False]
    make_spades_cmd_cpu_flag [of "Some 4" "''genes.txt''" 8 True None False]
  by (simp add: str_int_def str_nat.simps digit_char_def)

subsection \<open>Unfolding the environment on concrete inputs\<close>

lemmas fs_defs = isfile_def isdir_def target_def copy_target_def result_path_def flat_path_def
  unformatted_path_def log_removed_def startswith_def path_join_def spades_dir_def

lemmas sample_defs = sample_dirs_def sample_shell_def sample_world_def redo_world_def
  redo_g2_with_template_def redo_g2_def redo_g2_empty_template_def odd_world_def
  redo_template_def

subsection \<open>The external runs\<close>

lemma stderr_write_simps [simp]:
  "files (stderr_write s w) = files w" "calls (stderr_write s w) = calls w"
  "stderr (stderr_write s w) = stderr w @ [s]"
  by (simp_all add: stderr_write_def)

lemma initial_run_simps:
  "files (initial_run sh c n w) = snd (sh c (files w))"
  "calls (initial_run sh c n w) = calls w @ [c]"
  "stderr (initial_run sh c n w) =
     stderr w @ [''Running SPAdes on '' @ str_int (int n) @ '' genes\<newline>'', c @ ''\<newline>'']
       @ (if fst (sh c (files w)) \<noteq> 0 then [assembly_error_message] else [])"
  by (simp_all add: initial_run_def subprocess_call_def Let_def)

lemma redo_run_simps:
  "files (redo_run sh c n w) = snd (sh c (files w))"
  "calls (redo_run sh c n w) = calls w @ [c]"
  "stderr (redo_run sh c n w) =
     stderr w @ [''Re-running SPAdes for '' @ str_int (int n) @ '' genes\<newline>'', c @ ''\<newline>'']
       @ (if fst (sh c (files w)) \<noteq> 0 then [assembly_error_message] else [])"
  by (simp_all add: redo_run_def subprocess_call_def Let_def)

lemmas run_simps = initial_run_simps redo_run_simps

subsection \<open>Paths and copies\<close>

lemma basename_result: "basename (result_path g) = ''contigs.fasta''"
  by (simp add: basename_def result_path_def)

lemma copy_target_cases:
  "copy_target f (result_path g) (flat_path g) = flat_path g
   \<or> copy_target f (result_path g) (flat_path g) = flat_path g @ ''/contigs.fasta''"
  by (simp add: copy_target_def basename_result path_join_def startswith_def flat_path_def)

lemma flat_not_result: "flat_path g \<noteq> result_path h"
proof
  assume "flat_path g = result_path h"
  then have "rev (flat_path g) = rev (result_path h)" by simp
  then show False by (simp add: flat_path_def result_path_def)
qed

lemma flat_dir_not_result: "flat_path g @ ''/contigs.fasta'' \<noteq> result_path h"
proof
  assume "flat_path g @ ''/contigs.fasta'' = result_path h"
  then have "rev (flat_path g @ ''/contigs.fasta'') = rev (result_path h)" by simp
  then show False by (simp add: flat_path_def result_path_def)
qed

lemma flat_not_unformatted: "flat_path g \<noteq> unformatted_path"
proof
  assume "flat_path g = unformatted_path"
  then have "rev (flat_path g) = rev unformatted_path" by simp
  then show False by (simp add: flat_path_def unformatted_path_def)
qed

lemma flat_dir_not_unformatted: "flat_path g @ ''/contigs.fasta'' \<noteq> unformatted_path"
proof
  assume "flat_path g @ ''/contigs.fasta'' = unformatted_path"
  then have "rev (flat_path g @ ''/contigs.fasta'') = rev unformatted_path" by simp
  then show False by (simp add: flat_path_def unformatted_path_def)
qed

lemma copy_target_not_result: "copy_target f (result_path g) (flat_path g) \<noteq> result_path h"
  using copy_target_cases [of f g] flat_not_result [of g h] flat_dir_not_result [of g h] by auto

lemma copy_target_not_unformatted: "copy_target f (result_path g) (flat_path g) \<noteq> unformatted_path"
  using copy_target_cases [of f g] flat_not_unformatted [of g] flat_dir_not_unformatted [of g] by auto

lemma flat_path_inj: "flat_path g = flat_path h \<Longrightarrow> g = h"
proof -
  assume eq: "flat_path g = flat_path h"
  then have "length (flat_path g) = length (flat_path h)" by simp
  then have "length g = length h" by (simp add: flat_path_def)
  with eq show "g = h" by (simp add: flat_path_def)
qed

lemma flat_not_flat_dir: "flat_path g \<noteq> flat_path h @ ''/contigs.fasta''"
proof
  assume "flat_path g = flat_path h @ ''/contigs.fasta''"
  then have "rev (flat_path g) = rev (flat_path h @ ''/contigs.fasta'')" by simp
  then show False by (simp add: flat_path_def)
qed


lemma same_view_refl: "same_view f f"
  by (simp add: same_view_def)

lemma same_view_trans: "same_view f f' \<Longrightarrow> same_view f' f'' \<Longrightarrow> same_view f f''"
  by (simp add: same_view_def)

lemma same_view_isfile: "same_view f f' \<Longrightarrow> isfile f' (result_path h) = isfile f (result_path h)"
  by (simp add: same_view_def isfile_def)

lemma same_view_stat: "same_view f f' \<Longrightarrow> stat_size f' unformatted_path = stat_size f unformatted_path"
  by (simp add: same_view_def stat_size_def)

lemma same_view_target: "same_view f f' \<Longrightarrow> target f' g = target f g"
  by (simp add: same_view_def target_def copy_target_def)

lemma target_not_result: "target f g \<noteq> result_path h"
  unfolding target_def by (rule copy_target_not_result)

lemma target_not_unformatted: "target f g \<noteq> unformatted_path"
  unfolding target_def by (rule copy_target_not_unformatted)

lemma target_inj: "target f g = target f h \<Longrightarrow> g = h"
proof -
  assume eq: "target f g = target f h"
  have "flat_path g = flat_path h"
    using eq copy_target_cases [of f g] copy_target_cases [of f h]
      flat_not_flat_dir [of g h] flat_not_flat_dir [of h g]
    unfolding target_def by auto
  then show ?thesis by (rule flat_path_inj)
qed

lemma shutil_copy_Inr:
  assumes "shutil_copy (result_path g) (flat_path g) w = (Inr u, w')"
  shows "\<exists>c. files w (result_path g) = Some (File c)
           \<and> \<not> isdir (files w) (target (files w) g)
           \<and> w' = w\<lparr>files := (files w)(target (files w) g \<mapsto> File c)\<rparr>"
  using assms
  by (auto simp: shutil_copy_def target_def Let_def split: option.splits node.splits if_splits)

lemma shutil_copy_succeeds:
  assumes "isfile (files w) (result_path g)" "\<not> isdir (files w) (target (files w) g)"
  shows "\<exists>w'. shutil_copy (result_path g) (flat_path g) w = (Inr (), w')"
  using assms
  by (auto simp: shutil_copy_def target_def isfile_def Let_def split: option.splits node.splits)

lemma update_same_view:
  assumes "\<not> isdir f (target f g)"
  shows "same_view f (f(target f g \<mapsto> File c))"
proof -
  have "\<And>h. result_path h \<noteq> target f g" using target_not_result [of f g] by metis
  moreover have "unformatted_path \<noteq> target f g" using target_not_unformatted [of f g] by metis
  ultimately show ?thesis using assms by (simp add: same_view_def isdir_def)
qed

lemma shutil_copy_view:
  assumes "shutil_copy (result_path g) (flat_path g) w = (Inr u, w')"
  shows "same_view (files w) (files w')" "stderr w' = stderr w" "calls w' = calls w"
  using shutil_copy_Inr [OF assms] update_same_view [of "files w" g] by auto

lemma initial_classify_lists:
  "initial_classify gs (s0, f0) w = (Inr (s, f), w') \<Longrightarrow>
     s = s0 @ filter (\<lambda>g. isfile (files w) (result_path g)) gs
     \<and> f = f0 @ filter (\<lambda>g. \<not> isfile (files w) (result_path g)) gs
     \<and> same_view (files w) (files w') \<and> calls w' = calls w"
proof (induction gs arbitrary: s0 f0 w)
  case Nil
  then show ?case by (simp add: same_view_refl)
next
  case (Cons g gs)
  show ?case
  proof (cases "isfile (files w) (result_path g)")
    case True
    from Cons.prems True obtain u w1 where
      cp: "shutil_copy (result_path g) (flat_path g) w = (Inr u, w1)"
      and rest: "initial_classify gs (s0 @ [g], f0) w1 = (Inr (s, f), w')"
      by (auto split: prod.splits sum.splits)
    note v = shutil_copy_view [OF cp]
    from Cons.IH [OF rest] True v show ?thesis
      by (auto simp: same_view_isfile [OF v(1)] intro: same_view_trans)
  next
    case False
    with Cons.prems have rest:
      "initial_classify gs (s0, f0 @ [g]) (stderr_write (g @ ''\<newline>'') w) = (Inr (s, f), w')"
      by simp
    from Cons.IH [OF rest] False show ?thesis
      by (simp add: stderr_write_def)
  qed
qed


lemma initial_classify_frame:
  "initial_classify gs (s0, f0) w = (Inr (s, f), w') \<Longrightarrow>
     files w' p = files w p
     \<or> (\<exists>h\<in>set gs. isfile (files w) (result_path h) \<and> p = target (files w) h
            \<and> files w' p = files w (result_path h))"
proof (induction gs arbitrary: s0 f0 w)
  case Nil
  then show ?case by simp
next
  case (Cons g gs)
  show ?case
  proof (cases "isfile (files w) (result_path g)")
    case True
    from Cons.prems True obtain u w1 where
      cp: "shutil_copy (result_path g) (flat_path g) w = (Inr u, w1)"
      and rest: "initial_classify gs (s0 @ [g], f0) w1 = (Inr (s, f), w')"
      by (auto split: prod.splits sum.splits)
    note v = shutil_copy_view [OF cp]
    from shutil_copy_Inr [OF cp] obtain c where
      c: "files w (result_path g) = Some (File c)"
      and w1: "files w1 = (files w)(target (files w) g \<mapsto> File c)"
      by auto
    from Cons.IH [OF rest] consider
      (same) "files w' p = files w1 p"
      | (later) h where "h \<in> set gs" "isfile (files w1) (result_path h)"
          "p = target (files w1) h" "files w' p = files w1 (result_path h)"
      by blast
    then show ?thesis
    proof cases
      case same
      show ?thesis
      proof (cases "p = target (files w) g")
        case True
        with same w1 c have "files w' p = files w (result_path g)" by simp
        with True \<open>isfile (files w) (result_path g)\<close> show ?thesis by auto
      next
        case False
        with same w1 show ?thesis by simp
      qed
    next
      case later
      from later v(1) have "isfile (files w) (result_path h)" "p = target (files w) h"
        "files w' p = files w (result_path h)"
        by (simp_all add: same_view_isfile same_view_target) (simp add: same_view_def)
      with later(1) show ?thesis by auto
    qed
  next
    case False
    with Cons.prems have rest:
      "initial_classify gs (s0, f0 @ [g]) (stderr_write (g @ ''\<newline>'') w) = (Inr (s, f), w')"
      by simp
    from Cons.IH [OF rest] show ?thesis
      by (auto simp: stderr_write_def)
  qed
qed

lemma initial_classify_copied:
  "initial_classify gs (s0, f0) w = (Inr (s, f), w') \<Longrightarrow> g \<in> set gs \<Longrightarrow>
     isfile (files w) (result_path g) \<Longrightarrow>
     files w' (target (files w) g) = files w (result_path g)"
proof (induction gs arbitrary: s0 f0 w)
  case Nil
  then show ?case by simp
next
  case (Cons x gs)
  show ?case
  proof (cases "isfile (files w) (result_path x)")
    case True
    from Cons.prems(1) True obtain u w1 where
      cp: "shutil_copy (result_path x) (flat_path x) w = (Inr u, w1)"
      and rest: "initial_classify gs (s0 @ [x], f0) w1 = (Inr (s, f), w')"
      by (auto split: prod.splits sum.splits)
    note v = shutil_copy_view [OF cp]
    from shutil_copy_Inr [OF cp] obtain c where
      c: "files w (result_path x) = Some (File c)"
      and w1: "files w1 = (files w)(target (files w) x \<mapsto> File c)"
      by auto
    have res: "\<And>h. files w1 (result_path h) = files w (result_path h)"
      using v(1) by (simp add: same_view_def)
    show ?thesis
    proof (cases "g \<in> set gs")
      case True
      from Cons.prems(3) v(1) have "isfile (files w1) (result_path g)"
        by (simp add: same_view_isfile)
      from Cons.IH [OF rest True this] show ?thesis
        by (simp add: same_view_target [OF v(1)] res)
    next
      case False
      with Cons.prems(2) have gx: "g = x" by simp
      from initial_classify_frame [OF rest, of "target (files w) x"] consider
        (same) "files w' (target (files w) x) = files w1 (target (files w) x)"
        | (later) h where "h \<in> set gs" "target (files w) x = target (files w1) h"
            "files w' (target (files w) x) = files w1 (result_path h)"
        by blast
      then show ?thesis
      proof cases
        case same
        with w1 c gx show ?thesis by simp
      next
        case later
        from later(2) have "target (files w) x = target (files w) h"
          by (simp add: same_view_target [OF v(1)])
        then have "x = h" by (rule target_inj)
        with later(3) gx show ?thesis by (simp add: res)
      qed
    qed
  next
    case False
    with Cons.prems have gs: "g \<in> set gs" by auto
    from False Cons.prems(1) have rest:
      "initial_classify gs (s0, f0 @ [x]) (stderr_write (x @ ''\<newline>'') w) = (Inr (s, f), w')"
      by simp
    from Cons.IH [OF rest gs] Cons.prems(3) show ?thesis
      by (simp add: stderr_write_def)
  qed
qed

lemma initial_classify_returns:
  "(\<forall>g\<in>set gs. isfile (files w) (result_path g) \<longrightarrow> \<not> isdir (files w) (target (files w) g)) \<Longrightarrow>
     \<exists>s f w'. initial_classify gs (s0, f0) w = (Inr (s, f), w')"
proof (induction gs arbitrary: s0 f0 w)
  case Nil
  then show ?case by simp
next
  case (Cons x gs)
  show ?case
  proof (cases "isfile (files w) (result_path x)")
    case True
    with Cons.prems have "\<not> isdir (files w) (target (files w) x)" by simp
    from shutil_copy_succeeds [OF True this] obtain w1 where
      cp: "shutil_copy (result_path x) (flat_path x) w = (Inr (), w1)" by blast
    note v = shutil_copy_view [OF cp]
    have "\<forall>g\<in>set gs. isfile (files w1) (result_path g) \<longrightarrow> \<not> isdir (files w1) (target (files w1) g)"
      using Cons.prems v(1)
      by (simp add: same_view_isfile same_view_target) (simp add: same_view_def)
    from Cons.IH [OF this, of "s0 @ [x]" f0] True cp show ?thesis by simp
  next
    case False
    have "\<forall>g\<in>set gs. isfile (files (stderr_write (x @ ''\<newline>'') w)) (result_path g)
        \<longrightarrow> \<not> isdir (files (stderr_write (x @ ''\<newline>'') w)) (target (files (stderr_write (x @ ''\<newline>'') w)) g)"
      using Cons.prems by (simp add: stderr_write_def)
    from Cons.IH [OF this, of s0 "f0 @ [x]"] False show ?thesis by simp
  qed
qed

subsection \<open>Standard error does not influence the classification\<close>

lemma shutil_copy_indep:
  assumes "files v = files w"
  shows "fst (shutil_copy a b v) = fst (shutil_copy a b w)"
    and "files (snd (shutil_copy a b v)) = files (snd (shutil_copy a b w))"
  using assms
  by (auto simp: shutil_copy_def Let_def split: option.splits node.splits)

lemma shutil_copy_keeps:
  "stderr (snd (shutil_copy a b w)) = stderr w" "calls (snd (shutil_copy a b w)) = calls w"
  by (auto simp: shutil_copy_def Let_def split: option.splits node.splits)

lemma initial_classify_indep:
  "files v = files w \<Longrightarrow>
     fst (initial_classify gs (s0, f0) v) = fst (initial_classify gs (s0, f0) w)
     \<and> files (snd (initial_classify gs (s0, f0) v)) = files (snd (initial_classify gs (s0, f0) w))
     \<and> calls (snd (initial_classify gs (s0, f0) w)) = calls w
     \<and> (\<exists>out. stderr (snd (initial_classify gs (s0, f0) w)) = stderr w @ out
             \<and> stderr (snd (initial_classify gs (s0, f0) v)) = stderr v @ out)"
proof (induction gs arbitrary: s0 f0 v w)
  case Nil
  then show ?case by simp
next
  case (Cons g gs)
  show ?case
  proof (cases "isfile (files w) (result_path g)")
    case True
    obtain r1 w1 where cw: "shutil_copy (result_path g) (flat_path g) w = (r1, w1)"
      by (cases "shutil_copy (result_path g) (flat_path g) w")
    obtain r2 v1 where cv: "shutil_copy (result_path g) (flat_path g) v = (r2, v1)"
      by (cases "shutil_copy (result_path g) (flat_path g) v")
    from shutil_copy_indep [OF Cons.prems, of "result_path g" "flat_path g"] cw cv
    have eq: "r2 = r1" "files v1 = files w1" by simp_all
    from shutil_copy_keeps [of "result_path g" "flat_path g" w] cw
    have kw: "stderr w1 = stderr w" "calls w1 = calls w" by simp_all
    from shutil_copy_keeps [of "result_path g" "flat_path g" v] cv
    have kv: "stderr v1 = stderr v" "calls v1 = calls v" by simp_all
    show ?thesis
    proof (cases r1)
      case (Inl e)
      with True Cons.prems cw cv eq kw kv show ?thesis by simp
    next
      case (Inr u)
      from Cons.IH [OF eq(2), of "s0 @ [g]" f0] True Cons.prems cw cv eq kw kv Inr
      show ?thesis by simp
    qed
  next
    case False
    have "files (stderr_write (g @ ''\<newline>'') v) = files (stderr_write (g @ ''\<newline>'') w)"
      using Cons.prems by (simp add: stderr_write_def)
    from Cons.IH [OF this, of s0 "f0 @ [g]"] False Cons.prems show ?thesis
      by (auto simp: stderr_write_def)
  qed
qed

subsection \<open>The classification loop of the redo pass\<close>

lemma redo_classify_lists:
  "redo_classify gs (s0, f0) w = (Inr (s, f), w') \<Longrightarrow>
     s = s0 @ filter (\<lambda>g. isfile (files w) (result_path g)
                          \<and> (\<exists>n. stat_size (files w) unformatted_path = Inr n \<and> 0 < n)) gs
     \<and> f = f0 @ filter (\<lambda>g. \<not> (isfile (files w) (result_path g)
                          \<and> (\<exists>n. stat_size (files w) unformatted_path = Inr n \<and> 0 < n))) gs
     \<and> same_view (files w) (files w') \<and> calls w' = calls w"
proof (induction gs arbitrary: s0 f0 w)
  case Nil
  then show ?case by (simp add: same_view_refl)
next
  case (Cons g gs)
  let ?ok = "isfile (files w) (result_path g)
      \<and> (\<exists>n. stat_size (files w) unformatted_path = Inr n \<and> 0 < n)"
  show ?case
  proof (cases ?ok)
    case True
    from Cons.prems True obtain u w1 where
      cp: "shutil_copy (result_path g) (flat_path g) w = (Inr u, w1)"
      and rest: "redo_classify gs (s0 @ [g], f0) w1 = (Inr (s, f), w')"
      by (auto split: prod.splits sum.splits)
    note v = shutil_copy_view [OF cp]
    from Cons.IH [OF rest] True v show ?thesis
      by (auto simp: same_view_isfile [OF v(1)] same_view_stat [OF v(1)] intro: same_view_trans)
  next
    case False
    with Cons.prems have rest:
      "redo_classify gs (s0, f0 @ [g]) (stderr_write (g @ ''\<newline>'') w) = (Inr (s, f), w')"
      by (auto split: sum.splits if_splits)
    from Cons.IH [OF rest] False show ?thesis
      by (simp add: stderr_write_def)
  qed
qed


lemma redo_classify_indep:
  "files v = files w \<Longrightarrow>
     fst (redo_classify gs (s0, f0) v) = fst (redo_classify gs (s0, f0) w)
     \<and> files (snd (redo_classify gs (s0, f0) v)) = files (snd (redo_classify gs (s0, f0) w))
     \<and> calls (snd (redo_classify gs (s0, f0) w)) = calls w
     \<and> (\<exists>out. stderr (snd (redo_classify gs (s0, f0) w)) = stderr w @ out
             \<and> stderr (snd (redo_classify gs (s0, f0) v)) = stderr v @ out)"
proof (induction gs arbitrary: s0 f0 v w)
  case Nil
  then show ?case by simp
next
  case (Cons g gs)
  have wr: "files (stderr_write (g @ ''\<newline>'') v) = files (stderr_write (g @ ''\<newline>'') w)"
    using Cons.prems by (simp add: stderr_write_def)
  note failed = Cons.IH [OF wr, of s0 "f0 @ [g]"]
  show ?case
  proof (cases "isfile (files w) (result_path g)")
    case True
    show ?thesis
    proof (cases "stat_size (files w) unformatted_path")
      case (Inl e)
      with True Cons.prems show ?thesis by simp
    next
      case (Inr n)
      show ?thesis
      proof (cases "0 < n")
        case pos: True
        obtain r1 w1 where cw: "shutil_copy (result_path g) (flat_path g) w = (r1, w1)"
          by (cases "shutil_copy (result_path g) (flat_path g) w")
        obtain r2 v1 where cv: "shutil_copy (result_path g) (flat_path g) v = (r2, v1)"
          by (cases "shutil_copy (result_path g) (flat_path g) v")
        from shutil_copy_indep [OF Cons.prems, of "result_path g" "flat_path g"] cw cv
        have eq: "r2 = r1" "files v1 = files w1" by simp_all
        from shutil_copy_keeps [of "result_path g" "flat_path g" w] cw
        have kw: "stderr w1 = stderr w" "calls w1 = calls w" by simp_all
        from shutil_copy_keeps [of "result_path g" "flat_path g" v] cv
        have kv: "stderr v1 = stderr v" "calls v1 = calls v" by simp_all
        show ?thesis
        proof (cases r1)
          case (Inl e)
          with True Inr pos Cons.prems cw cv eq kw kv show ?thesis by simp
        next
          case inr: (Inr u)
          from Cons.IH [OF eq(2), of "s0 @ [g]" f0] True Inr pos Cons.prems cw cv eq kw kv inr
          show ?thesis by simp
        qed
      next
        case False
        with failed True Inr Cons.prems show ?thesis
          by (auto simp: stderr_write_def)
      qed
    qed
  next
    case False
    with failed Cons.prems show ?thesis
      by (auto simp: stderr_write_def)
  qed
qed

subsection \<open>The command loop of the redo pass\<close>

lemma file_append_simps [simp]:
  "files (file_append p s w) = (files w)(p \<mapsto> File (file_content (files w) p @ s))"
  "calls (file_append p s w) = calls w" "stderr (file_append p s w) = stderr w"
  by (simp_all add: file_append_def)

lemma spades_dir_suffix: "\<exists>p. spades_dir g = p @ ''_spades''"
  by (auto simp: spades_dir_def path_join_def)

lemma spades_dir_not_redo_file: "spades_dir g \<noteq> ''redo_spades_commands.txt''"
proof
  assume eq: "spades_dir g = ''redo_spades_commands.txt''"
  from spades_dir_suffix [of g] obtain p where "spades_dir g = p @ ''_spades''" by blast
  with eq have "rev (p @ ''_spades'') = rev ''redo_spades_commands.txt''" by simp
  then show False by simp
qed

lemma list_kmers_cong: "f' (spades_dir g) = f (spades_dir g) \<Longrightarrow> list_kmers f' g = list_kmers f g"
  by (simp add: list_kmers_def os_listdir_def)

lemma kmer_entries_cong: "f' (spades_dir g) = f (spades_dir g) \<Longrightarrow> kmer_entries f' g = kmer_entries f g"
  by (simp add: kmer_entries_def os_listdir_def)

lemma parse_kmers_length:
  "parse_kmers es = Inr ks \<Longrightarrow> length ks = length (filter (\<lambda>x. startswith x ''K'') es)"
  by (induction es arbitrary: ks) (auto split: if_splits option.splits sum.splits)

lemma list_kmers_length: "list_kmers f g = Inr ks \<Longrightarrow> length ks = length (kmer_entries f g)"
  by (auto simp: list_kmers_def kmer_entries_def dest: parse_kmers_length split: sum.splits)

lemma redo_loop_lists:
  "redo_loop cov gs (d0, r0) w = (Inr (d, r), w') \<Longrightarrow>
     d = d0 @ filter (\<lambda>g. length (kmer_entries (files w) g) < 2) gs
     \<and> r = r0 @ filter (\<lambda>g. \<not> length (kmer_entries (files w) g) < 2) gs
     \<and> calls w' = calls w
     \<and> (\<forall>p. p \<noteq> ''redo_spades_commands.txt'' \<longrightarrow> files w' p = files w p)
     \<and> (\<forall>g\<in>set gs. \<exists>ks. list_kmers (files w) g = Inr ks)"
proof (induction gs arbitrary: d0 r0 w)
  case Nil
  then show ?case by simp
next
  case (Cons x gs)
  from Cons.prems obtain ks where ks: "list_kmers (files w) x = Inr ks"
    by (cases "list_kmers (files w) x") auto
  note len = list_kmers_length [OF ks]
  show ?case
  proof (cases "length ks < 2")
    case True
    from Cons.prems ks True obtain w1 where
      rest: "redo_loop cov gs (d0 @ [x], r0) w1 = (Inr (d, r), w')"
      and f1: "files w1 = files w" "calls w1 = calls w"
      by auto
    from Cons.IH [OF rest] True ks len show ?thesis
      by (simp add: f1)
  next
    case False
    from False have ne: "butlast ks \<noteq> []" by (cases ks rule: rev_cases) auto
    from Cons.prems ks False ne obtain w1 where
      rest: "redo_loop cov gs (d0, r0 @ [x]) w1 = (Inr (d, r), w')"
      and f1: "\<And>p. p \<noteq> ''redo_spades_commands.txt'' \<Longrightarrow> files w1 p = files w p"
        "calls w1 = calls w"
      by (auto simp: Let_def)
    have sd: "\<And>g. files w1 (spades_dir g) = files w (spades_dir g)"
      using spades_dir_not_redo_file by (simp add: f1)
    have ke: "\<And>g. kmer_entries (files w1) g = kmer_entries (files w) g"
      by (rule kmer_entries_cong) (rule sd)
    have lk: "\<And>g. list_kmers (files w1) g = list_kmers (files w) g"
      by (rule list_kmers_cong) (rule sd)
    from Cons.IH [OF rest] False ks len show ?thesis
      by (simp add: f1 ke lk)
  qed
qed

lemma redo_loop_content:
  "redo_loop cov gs (d0, r0) w = (Inr (d, r), w') \<Longrightarrow>
     file_content (files w') ''redo_spades_commands.txt''
       = file_content (files w) ''redo_spades_commands.txt''
         @ concat (map (\<lambda>g. restart_line cov (the_kmers (files w) g) g)
             (filter (\<lambda>g. \<not> length (kmer_entries (files w) g) < 2) gs))
     \<and> (isfile (files w) ''redo_spades_commands.txt'' \<longrightarrow> isfile (files w') ''redo_spades_commands.txt'')"
proof (induction gs arbitrary: d0 r0 w)
  case Nil
  then show ?case by simp
next
  case (Cons x gs)
  from Cons.prems obtain ks where ks: "list_kmers (files w) x = Inr ks"
    by (cases "list_kmers (files w) x") auto
  note len = list_kmers_length [OF ks]
  show ?case
  proof (cases "length ks < 2")
    case True
    from Cons.prems ks True obtain w1 where
      rest: "redo_loop cov gs (d0 @ [x], r0) w1 = (Inr (d, r), w')"
      and f1: "files w1 = files w"
      by auto
    from Cons.IH [OF rest] True ks len show ?thesis
      by (simp add: f1)
  next
    case False
    from False have ne: "butlast ks \<noteq> []" by (cases ks rule: rev_cases) auto
    from Cons.prems ks False ne obtain w1 where
      rest: "redo_loop cov gs (d0, r0 @ [x]) w1 = (Inr (d, r), w')"
      and f1: "files w1 = (files w)(''redo_spades_commands.txt'' \<mapsto>
          File (file_content (files w) ''redo_spades_commands.txt'' @ restart_line cov ks x))"
      by (auto simp: Let_def restart_line_def last_map)
    have sd: "\<And>g. files w1 (spades_dir g) = files w (spades_dir g)"
      using spades_dir_not_redo_file by (simp add: f1)
    have ke: "\<And>g. kmer_entries (files w1) g = kmer_entries (files w) g"
      by (rule kmer_entries_cong) (rule sd)
    have lk: "\<And>g. list_kmers (files w1) g = list_kmers (files w) g"
      by (rule list_kmers_cong) (rule sd)
    have tk: "\<And>g. the_kmers (files w1) g = the_kmers (files w) g"
      unfolding the_kmers_def using lk by simp
    have c1: "file_content (files w1) ''redo_spades_commands.txt''
        = file_content (files w) ''redo_spades_commands.txt'' @ restart_line cov ks x"
      "isfile (files w1) ''redo_spades_commands.txt''"
      by (simp_all add: f1 file_content_def isfile_def)
    from Cons.IH [OF rest] False ks len show ?thesis
      by (simp add: c1 ke lk the_kmers_def)
  qed
qed

lemma redo_prepare_Inr:
  assumes "redo_prepare genelist cov w = (Inr (duds, redos), w')"
  shows "\<exists>genes. read_genes (files w) genelist = Inr genes
     \<and> duds = filter (\<lambda>g. length (kmer_entries (files w) g) < 2) genes
     \<and> redos = filter (\<lambda>g. \<not> length (kmer_entries (files w) g) < 2) genes
     \<and> (\<forall>g\<in>set genes. \<exists>ks. list_kmers (files w) g = Inr ks)
     \<and> calls w' = calls w
     \<and> files w' ''redo_spades_commands.txt''
         = Some (File (concat (map (\<lambda>g. restart_line cov (the_kmers (files w) g) g) redos)))
     \<and> files w' ''spades_duds.txt'' = Some (File (py_join ''\<newline>'' duds))
     \<and> (\<forall>p. p \<noteq> ''redo_spades_commands.txt'' \<and> p \<noteq> ''spades_duds.txt'' \<longrightarrow> files w' p = files w p)"
proof -
  from assms obtain genes where genes: "read_genes (files w) genelist = Inr genes"
    by (cases "read_genes (files w) genelist") (auto simp: redo_prepare_def)
  define w1 where "w1 = w\<lparr>files := (files w)(''redo_spades_commands.txt'' \<mapsto> File [])\<rparr>"
  from assms genes have ow: "open_write ''redo_spades_commands.txt'' w = (Inr (), w1)"
    by (auto simp: redo_prepare_def open_write_def w1_def split: if_splits)
  from assms genes ow obtain w2 where
    loop: "redo_loop cov genes ([], []) w1 = (Inr (duds, redos), w2)"
    and wt: "write_text ''spades_duds.txt'' (py_join ''\<newline>'' duds) w2 = (Inr (), w')"
    by (auto simp: redo_prepare_def split: sum.splits prod.splits)
  have sd: "\<And>g. files w1 (spades_dir g) = files w (spades_dir g)"
    using spades_dir_not_redo_file by (simp add: w1_def)
  have ke: "\<And>g. kmer_entries (files w1) g = kmer_entries (files w) g"
    by (rule kmer_entries_cong) (rule sd)
  have lk: "\<And>g. list_kmers (files w1) g = list_kmers (files w) g"
    by (rule list_kmers_cong) (rule sd)
  have tk: "\<And>g. the_kmers (files w1) g = the_kmers (files w) g"
    unfolding the_kmers_def using lk by simp
  have w1f: "file_content (files w1) ''redo_spades_commands.txt'' = []"
    "isfile (files w1) ''redo_spades_commands.txt''" "calls w1 = calls w"
    "\<And>p. p \<noteq> ''redo_spades_commands.txt'' \<Longrightarrow> files w1 p = files w p"
    by (simp_all add: w1_def file_content_def isfile_def)
  note L = redo_loop_lists [OF loop] and C = redo_loop_content [OF loop]
  from wt have w': "w' = w2\<lparr>files := (files w2)(''spades_duds.txt'' \<mapsto> File (py_join ''\<newline>'' duds))\<rparr>"
    by (auto simp: write_text_def open_write_def file_append_def file_content_def split: if_splits)
  from C w1f have rf: "files w2 ''redo_spades_commands.txt''
      = Some (File (concat (map (\<lambda>g. restart_line cov (the_kmers (files w) g) g) redos)))"
    using L by (auto simp: ke tk file_content_def isfile_def split: option.splits node.splits)
  show ?thesis
    using genes L w1f rf by (intro exI [of _ genes]) (simp add: ke lk w')
qed

subsection \<open>The initial run\<close>

lemma copy_target_flat: "\<not> isdir f (flat_path g) \<Longrightarrow> target f g = flat_path g"
  by (simp add: target_def copy_target_def)

text \<open>
  Claim C3. Let \<open>F\<close> be the file system the external run leaves. \<open>spades_initial\<close>
  returns exactly the genes of the list without a result file in \<open>F\<close>, in the order of
  the list; the other genes form \<open>spades_successful\<close>, and the result file of each of
  them is copied to its target, which is \<open><gene>/<gene>_contigs.fasta\<close> unless that path is
  a directory. Nothing else in the file system changes. The function returns whenever
  the gene list can be read and no copy is aimed at a directory.
\<close>

theorem spades_initial_classification:
  assumes genes: "read_genes (files (log_removed w)) genelist = Inr genes"
    and F: "F = snd (sh (make_spades_cmd genelist cov cpu paired kv False) (files (log_removed w)))"
    and nodir: "\<forall>g\<in>set genes. isfile F (result_path g) \<longrightarrow> \<not> isdir F (target F g)"
  shows "fst (spades_initial sh genelist cov cpu paired kv w)
       = Inr (filter (\<lambda>g. \<not> isfile F (result_path g)) genes)
     \<and> (\<forall>g\<in>set genes. isfile F (result_path g) \<longrightarrow>
           files (snd (spades_initial sh genelist cov cpu paired kv w)) (target F g) = F (result_path g))
     \<and> (\<forall>g. \<not> isdir F (flat_path g) \<longrightarrow> target F g = flat_path g)
     \<and> (\<forall>p. files (snd (spades_initial sh genelist cov cpu paired kv w)) p = F p
           \<or> (\<exists>g\<in>set genes. isfile F (result_path g) \<and> p = target F g))
     \<and> (\<forall>v. files v = F \<longrightarrow> fst (initial_classify genes ([], []) v)
           = Inr (filter (\<lambda>g. isfile F (result_path g)) genes,
                  filter (\<lambda>g. \<not> isfile F (result_path g)) genes))"
proof -
  let ?cmd = "make_spades_cmd genelist cov cpu paired kv False"
  define w4 where "w4 = initial_run sh ?cmd (length genes) (log_removed w)"
  have f4: "files w4 = F"
    by (simp add: w4_def F run_simps)
  have run: "spades_initial sh genelist cov cpu paired kv w =
      (case initial_classify genes ([], []) w4 of
         (Inl e, w5) \<Rightarrow> (Inl e, w5)
       | (Inr (s, f), w5) \<Rightarrow> (Inr f, w5))"
    using genes by (simp add: spades_initial_def w4_def Let_def)
  have lists: "fst (initial_classify genes ([], []) v)
      = Inr (filter (\<lambda>g. isfile F (result_path g)) genes, filter (\<lambda>g. \<not> isfile F (result_path g)) genes)"
    if v: "files v = F" for v
  proof -
    from initial_classify_returns [of genes v "[]" "[]"] nodir v obtain s f v' where
      r: "initial_classify genes ([], []) v = (Inr (s, f), v')" by auto
    from initial_classify_lists [OF r] v r show ?thesis by simp
  qed
  obtain s f w5 where r: "initial_classify genes ([], []) w4 = (Inr (s, f), w5)"
    using initial_classify_returns [of genes w4 "[]" "[]"] nodir f4 by auto
  from initial_classify_lists [OF r] f4
  have f: "f = filter (\<lambda>g. \<not> isfile F (result_path g)) genes" by simp
  from run r have res: "spades_initial sh genelist cov cpu paired kv w = (Inr f, w5)" by simp
  have copied: "files w5 (target F g) = F (result_path g)"
    if "g \<in> set genes" "isfile F (result_path g)" for g
    using initial_classify_copied [OF r, of g] that f4 by simp
  have frame: "files w5 p = F p \<or> (\<exists>g\<in>set genes. isfile F (result_path g) \<and> p = target F g)" for p
    using initial_classify_frame [OF r, of p] f4 by auto
  show ?thesis
    using res f copied frame lists by (simp add: copy_target_flat)
qed

theorem spades_initial_classification_witness:
  "fst (spades_initial (sample_shell id) ''genes.txt'' 8 (Some 0) True None
          (sample_world ''g1\<newline>g2\<newline>''))
     = Inr [''g2'']
   \<and> files (snd (spades_initial (sample_shell id) ''genes.txt'' 8 (Some 0) True None
          (sample_world ''g1\<newline>g2\<newline>''))) ''g1/g1_contigs.fasta''
     = Some (File ''ACGT'')"
proof -
  let ?w = "sample_world ''g1\<newline>g2\<newline>''"
  let ?F = "snd (sample_shell id (make_spades_cmd ''genes.txt'' 8 (Some 0) True None False)
      (files (log_removed ?w)))"
  have genes: "read_genes (files (log_removed ?w)) ''genes.txt'' = Inr [''g1'', ''g2'']"
    by (simp add: sample_defs fs_defs read_genes_def file_lines_def py_rstrip_def py_isspace_def)
  have nodir: "\<forall>g\<in>set [''g1'', ''g2'']. isfile ?F (result_path g) \<longrightarrow> \<not> isdir ?F (target ?F g)"
    by (simp add: sample_defs fs_defs make_spades_cmd_def cpu_truthy_def kvals_joined_def)
  from spades_initial_classification [where sh = "sample_shell id" and w = ?w
      and genelist = "''genes.txt''" and cov = 8 and cpu = "Some 0" and paired = True
      and kv = None and F = ?F and genes = "[''g1'', ''g2'']", OF genes refl nodir]
  show ?thesis
    by (simp add: sample_defs fs_defs make_spades_cmd_def cpu_truthy_def kvals_joined_def)
qed

subsection \<open>The redo pass\<close>

lemma fst_redo_prepare:
  assumes "fst (redo_prepare genelist cov w) = Inr (duds, redos)"
  shows "redo_prepare genelist cov w = (Inr (duds, redos), snd (redo_prepare genelist cov w))"
  using assms by (cases "redo_prepare genelist cov w") simp

lemma rerun_spades_lists_Inr:
  assumes "rerun_spades_lists sh genelist cov cpu paired w = (Inr (succ, failed, duds, redos), w')"
  shows "\<exists>w3. redo_prepare genelist cov w = (Inr (duds, redos), w3)
      \<and> redo_classify redos ([], []) (redo_run sh (redo_parallel_cmd cpu) (length redos) w3)
          = (Inr (succ, failed), w')"
  using assms
  by (auto simp: rerun_spades_lists_def Let_def split: prod.splits sum.splits)

text \<open>
  Claim C4 says that every gene of the list ends in one of three classes, and that the
  duds are the genes with fewer than two subdirectories named \<open>K...\<close>. Two runs show
  otherwise. The assembly directory of \<open>gf\<close> holds one such subdirectory and a regular
  file \<open>K33\<close>: the gene is retried and returned as failed, it is no dud. And where the
  redo run assembles \<open>g2\<close> and nothing is at the unformatted path, the function raises
  the error of \<open>os.stat\<close> and leaves every gene without a class.
\<close>

theorem rerun_spades_classification_counterexample:
  "length (kmer_subdirs (files (odd_world ''gf'')) ''gf'') = 1
   \<and> fst (rerun_spades (sample_shell id) ''failed_spades.txt'' 8 None True (odd_world ''gf''))
       = Inr ([''gf''], [])
   \<and> isfile (snd (sample_shell redo_g2 (redo_parallel_cmd None)
         (files (snd (redo_prepare ''failed_spades.txt'' 8 (redo_world ''g2\<newline>g3\<newline>g4''))))))
       (result_path ''g2'')
   \<and> fst (rerun_spades_lists (sample_shell redo_g2) ''failed_spades.txt'' 8 None True
         (redo_world ''g2\<newline>g3\<newline>g4''))
       = Inl (OSError ''{}/{}_spades/contigs.fasta'')"
  by code_simp

text \<open>
  Claim C4, amended. Whenever \<open>rerun_spades\<close> returns, every gene of its list is in
  exactly one of \<open>spades_successful\<close>, \<open>spades_failed\<close> and \<open>spades_duds\<close>. The duds are
  exactly the genes whose assembly directory lists fewer than two entries with a name
  starting with \<open>K\<close>, of whatever kind the entries are; the other genes are the ones
  retried, and the successful and the failed genes are among them. The function returns
  the failed genes and the duds, and no dud is in the failure list.
\<close>

theorem rerun_spades_classification:
  assumes "fst (rerun_spades_lists sh genelist cov cpu paired w) = Inr (succ, failed, duds, redos)"
  shows "\<exists>genes. read_genes (files w) genelist = Inr genes
     \<and> duds = filter (\<lambda>g. length (kmer_entries (files w) g) < 2) genes
     \<and> redos = filter (\<lambda>g. \<not> length (kmer_entries (files w) g) < 2) genes
     \<and> (\<forall>g\<in>set genes.
            (g \<in> set succ \<and> g \<notin> set failed \<and> g \<notin> set duds)
          \<or> (g \<notin> set succ \<and> g \<in> set failed \<and> g \<notin> set duds)
          \<or> (g \<notin> set succ \<and> g \<notin> set failed \<and> g \<in> set duds))
     \<and> set succ \<union> set failed \<union> set duds = set genes
     \<and> set succ \<union> set failed = set redos
     \<and> set redos \<inter> set duds = {}
     \<and> fst (rerun_spades sh genelist cov cpu paired w) = Inr (failed, duds)"
proof -
  obtain w' where run: "rerun_spades_lists sh genelist cov cpu paired w
      = (Inr (succ, failed, duds, redos), w')"
    using assms by (cases "rerun_spades_lists sh genelist cov cpu paired w") simp
  from rerun_spades_lists_Inr [OF run] obtain w3 w7 where
    prep: "redo_prepare genelist cov w = (Inr (duds, redos), w3)"
    and cls: "redo_classify redos ([], []) w7 = (Inr (succ, failed), w')"
    by blast
  from redo_prepare_Inr [OF prep] obtain genes where
    genes: "read_genes (files w) genelist = Inr genes"
    and duds: "duds = filter (\<lambda>g. length (kmer_entries (files w) g) < 2) genes"
    and redos: "redos = filter (\<lambda>g. \<not> length (kmer_entries (files w) g) < 2) genes"
    by blast
  define ok where "ok = (\<lambda>g. isfile (files w7) (result_path g)
      \<and> (\<exists>n. stat_size (files w7) unformatted_path = Inr n \<and> 0 < n))"
  from redo_classify_lists [OF cls]
  have sf: "succ = filter ok redos" "failed = filter (\<lambda>g. \<not> ok g) redos"
    by (simp_all add: ok_def)
  have ret: "fst (rerun_spades sh genelist cov cpu paired w) = Inr (failed, duds)"
    by (simp add: rerun_spades_def run)
  have part: "(g \<in> set succ \<and> g \<notin> set failed \<and> g \<notin> set duds)
          \<or> (g \<notin> set succ \<and> g \<in> set failed \<and> g \<notin> set duds)
          \<or> (g \<notin> set succ \<and> g \<notin> set failed \<and> g \<in> set duds)" if "g \<in> set genes" for g
    using that by (auto simp: sf duds redos)
  have u: "set succ \<union> set failed \<union> set duds = set genes" "set succ \<union> set failed = set redos"
    "set redos \<inter> set duds = {}"
    by (auto simp: sf duds redos)
  from genes duds redos part u ret show ?thesis by blast
qed


lemma sample_redo_lists:
  "fst (rerun_spades_lists (sample_shell redo_g2_with_template) ''failed_spades.txt'' 8 None True
          (redo_world ''g2\<newline>g3\<newline>g4''))
     = Inr ([''g2''], [''g4''], [''g3''], [''g2'', ''g4''])"
  by code_simp

lemma sample_redo_lists_plain:
  "fst (rerun_spades_lists (sample_shell id) ''failed_spades.txt'' 8 None True
          (redo_world ''g2\<newline>g3\<newline>g4''))
     = Inr ([], [''g2'', ''g4''], [''g3''], [''g2'', ''g4''])"
  by code_simp

theorem rerun_spades_classification_witness:
  "fst (rerun_spades (sample_shell id) ''failed_spades.txt'' 8 None True
          (redo_world ''g2\<newline>g3\<newline>g4''))
     = Inr ([''g2'', ''g4''], [''g3''])
   \<and> fst (rerun_spades (sample_shell redo_g2_with_template) ''failed_spades.txt'' 8 None True
          (redo_world ''g2\<newline>g3\<newline>g4''))
     = Inr ([''g4''], [''g3''])"
proof -
  from rerun_spades_classification [OF sample_redo_lists_plain]
  have a: "fst (rerun_spades (sample_shell id) ''failed_spades.txt'' 8 None True
          (redo_world ''g2\<newline>g3\<newline>g4'')) = Inr ([''g2'', ''g4''], [''g3''])"
    by blast
  from rerun_spades_classification [OF sample_redo_lists]
  have b: "fst (rerun_spades (sample_shell redo_g2_with_template) ''failed_spades.txt'' 8 None True
          (redo_world ''g2\<newline>g3\<newline>g4'')) = Inr ([''g4''], [''g3''])"
    by blast
  from a b show ?thesis by blast
qed

lemma parse_kmers_values:
  "parse_kmers es = Inr ks \<Longrightarrow> ks = map kmer_value (filter (\<lambda>x. startswith x ''K'') es)"
  by (induction es arbitrary: ks) (auto simp: kmer_value_def split: if_splits option.splits sum.splits)

lemma list_kmers_values:
  "list_kmers f g = Inr ks \<Longrightarrow> ks = sort (map kmer_value (kmer_entries f g))"
  by (auto simp: list_kmers_def kmer_entries_def dest: parse_kmers_values split: sum.splits)

lemma sorted_last_Max: "sorted ks \<Longrightarrow> ks \<noteq> [] \<Longrightarrow> last ks = Max (set ks)"
proof (cases ks rule: rev_cases)
  case Nil
  assume "ks \<noteq> []"
  with Nil show ?thesis by simp
next
  case (snoc xs x)
  assume "sorted ks"
  with snoc have le: "\<forall>y\<in>set xs. y \<le> x" by (simp add: sorted_append)
  have "Max (set ks) = x"
    unfolding snoc by (rule Max_eqI) (use le in auto)
  with snoc show ?thesis by simp
qed


lemma butlast_facts:
  fixes ks :: "int list"
  assumes s: "sorted ks" and len: "2 \<le> length ks"
  shows "ks = butlast ks @ [Max (set ks)]"
    and "sorted (butlast ks)"
    and "distinct ks \<Longrightarrow> set (butlast ks) = set ks - {Max (set ks)}"
    and "distinct ks \<Longrightarrow> last (butlast ks) = Max (set ks - {Max (set ks)})"
proof -
  from len have ne: "ks \<noteq> []" by auto
  from sorted_last_Max [OF s ne] have lm: "last ks = Max (set ks)" .
  from ne lm show split: "ks = butlast ks @ [Max (set ks)]"
    by (metis append_butlast_last_id)
  have "sorted (butlast ks @ [last ks])" using s ne by simp
  then show sb: "sorted (butlast ks)" by (simp add: sorted_append)
  from len have bne: "butlast ks \<noteq> []" by (cases ks rule: rev_cases) auto
  {
    assume d: "distinct ks"
    have "distinct (butlast ks @ [Max (set ks)])" using d split by simp
    then have notin: "Max (set ks) \<notin> set (butlast ks)" by simp
    have "set ks = set (butlast ks) \<union> {Max (set ks)}"
      using split by (metis list.set(1) list.simps(15) set_append)
    with notin show sets: "set (butlast ks) = set ks - {Max (set ks)}" by auto
    from sorted_last_Max [OF sb bne] sets
    show "last (butlast ks) = Max (set ks - {Max (set ks)})" by simp
  }
qed

lemma list_kmers_sorted: "list_kmers f g = Inr ks \<Longrightarrow> sorted ks"
  by (auto simp: list_kmers_def split: sum.splits)

lemma restart_line_explicit:
  "restart_line cov ks g =
     ''spades.py --restart-from k'' @ str_int (last (butlast ks)) @ '' -k ''
       @ py_join '','' (map str_int (butlast ks)) @ '' --threads 1 --cov-cutoff ''
       @ str_int cov @ '' -o '' @ g @ ''/'' @ g @ ''_spades\<newline>''"
  by (simp add: restart_line_def restart_cmd_def)

text \<open>
  Claim C7 says that the largest attempted k-mer value is dropped and that the restart
  is from the next-largest one. Two genes show otherwise. The directories \<open>K21\<close>, \<open>K55\<close>
  and \<open>K055\<close> of \<open>gd\<close> give the values 21, 55, 55: the command restarts from 55 and
  keeps 55 in its \<open>-k\<close> list. The assembly directory of \<open>gk\<close> holds the subdirectories
  \<open>K21\<close> and \<open>K33\<close> and a regular file \<open>K55\<close>: the file counts as the largest value, and
  the command restarts from 33, the largest of the subdirectories, with \<open>-k 21,33\<close>.
\<close>

theorem redo_restart_commands_counterexample:
  "the_kmers (files (odd_world ''gd'')) ''gd'' = [21, 55, 55]
   \<and> files (snd (redo_prepare ''failed_spades.txt'' 8 (odd_world ''gd''))) ''redo_spades_commands.txt''
       = Some (File ''spades.py --restart-from k55 -k 21,55 --threads 1 --cov-cutoff 8 -o gd/gd_spades\<newline>'')
   \<and> kmer_subdirs (files (odd_world ''gk'')) ''gk'' = [''K21'', ''K33'']
   \<and> files (snd (redo_prepare ''failed_spades.txt'' 8 (odd_world ''gk''))) ''redo_spades_commands.txt''
       = Some (File ''spades.py --restart-from k33 -k 21,33 --threads 1 --cov-cutoff 8 -o gk/gk_spades\<newline>'')"
  by code_simp

text \<open>
  Claim C7, amended. When the commands of the redo pass have been written, the command
  file holds one line per gene with at least two entries named \<open>K...\<close> in its assembly
  directory, in the order of the list. The values of these entries, of whatever kind the
  entries are, are sorted ascending with repeated values kept; the last element of that
  list is dropped, \<open>--restart-from\<close> names the last of the remaining ones, and \<open>-k\<close> lists
  the remaining ones joined by commas. When the values are distinct, the remaining ones
  are all values except the largest, and the restart value is the second largest.
\<close>

theorem redo_restart_commands:
  assumes "fst (redo_prepare genelist cov w) = Inr (duds, redos)"
  shows "files (snd (redo_prepare genelist cov w)) ''redo_spades_commands.txt''
      = Some (File (concat (map
          (\<lambda>g. ''spades.py --restart-from k'' @ str_int (last (butlast (the_kmers (files w) g)))
                @ '' -k '' @ py_join '','' (map str_int (butlast (the_kmers (files w) g)))
                @ '' --threads 1 --cov-cutoff '' @ str_int cov
                @ '' -o '' @ g @ ''/'' @ g @ ''_spades\<newline>'') redos)))
     \<and> (\<exists>genes. read_genes (files w) genelist = Inr genes
          \<and> redos = filter (\<lambda>g. 2 \<le> length (kmer_entries (files w) g)) genes)
     \<and> (\<forall>g\<in>set redos.
           the_kmers (files w) g = sort (map kmer_value (kmer_entries (files w) g))
         \<and> the_kmers (files w) g
             = butlast (the_kmers (files w) g) @ [Max (set (the_kmers (files w) g))]
         \<and> sorted (butlast (the_kmers (files w) g))
         \<and> (distinct (the_kmers (files w) g) \<longrightarrow>
               set (butlast (the_kmers (files w) g))
                 = set (the_kmers (files w) g) - {Max (set (the_kmers (files w) g))}
             \<and> last (butlast (the_kmers (files w) g))
                 = Max (set (the_kmers (files w) g) - {Max (set (the_kmers (files w) g))})))"
proof -
  from fst_redo_prepare [OF assms] redo_prepare_Inr obtain genes where
    genes: "read_genes (files w) genelist = Inr genes"
    and redos: "redos = filter (\<lambda>g. \<not> length (kmer_entries (files w) g) < 2) genes"
    and parsed: "\<forall>g\<in>set genes. \<exists>ks. list_kmers (files w) g = Inr ks"
    and content: "files (snd (redo_prepare genelist cov w)) ''redo_spades_commands.txt''
         = Some (File (concat (map (\<lambda>g. restart_line cov (the_kmers (files w) g) g) redos)))"
    by blast
  have r2: "redos = filter (\<lambda>g. 2 \<le> length (kmer_entries (files w) g)) genes"
    unfolding redos by (rule filter_cong) auto
  have each: "the_kmers (files w) g = sort (map kmer_value (kmer_entries (files w) g))
         \<and> the_kmers (files w) g
             = butlast (the_kmers (files w) g) @ [Max (set (the_kmers (files w) g))]
         \<and> sorted (butlast (the_kmers (files w) g))
         \<and> (distinct (the_kmers (files w) g) \<longrightarrow>
               set (butlast (the_kmers (files w) g))
                 = set (the_kmers (files w) g) - {Max (set (the_kmers (files w) g))}
             \<and> last (butlast (the_kmers (files w) g))
                 = Max (set (the_kmers (files w) g) - {Max (set (the_kmers (files w) g))}))"
    if g: "g \<in> set redos" for g
  proof -
    from g r2 have gin: "g \<in> set genes" and two: "2 \<le> length (kmer_entries (files w) g)" by auto
    from parsed gin obtain ks where ks: "list_kmers (files w) g = Inr ks" by blast
    then have tk: "the_kmers (files w) g = ks" by (simp add: the_kmers_def)
    from list_kmers_length [OF ks] two have len: "2 \<le> length ks" by simp
    note s = list_kmers_sorted [OF ks]
    from list_kmers_values [OF ks] butlast_facts [OF s len] show ?thesis
      unfolding tk by blast
  qed
  have c2: "files (snd (redo_prepare genelist cov w)) ''redo_spades_commands.txt''
      = Some (File (concat (map
          (\<lambda>g. ''spades.py --restart-from k'' @ str_int (last (butlast (the_kmers (files w) g)))
                @ '' -k '' @ py_join '','' (map str_int (butlast (the_kmers (files w) g)))
                @ '' --threads 1 --cov-cutoff '' @ str_int cov
                @ '' -o '' @ g @ ''/'' @ g @ ''_spades\<newline>'') redos)))"
    using content unfolding restart_line_explicit .
  have g2: "\<exists>genes. read_genes (files w) genelist = Inr genes
          \<and> redos = filter (\<lambda>g. 2 \<le> length (kmer_entries (files w) g)) genes"
    using genes r2 by blast
  from c2 g2 each show ?thesis by blast
qed

lemma sample_prepare:
  "fst (redo_prepare ''failed_spades.txt'' 8 (redo_world ''g2\<newline>g3\<newline>g4''))
     = Inr ([''g3''], [''g2'', ''g4''])"
  by code_simp

lemma sample_kmers:
  "the_kmers (files (redo_world ''g2\<newline>g3\<newline>g4'')) ''g2'' = [21, 33, 55]"
  "the_kmers (files (redo_world ''g2\<newline>g3\<newline>g4'')) ''g4'' = [21, 33]"
  by code_simp+

theorem redo_restart_commands_witness:
  "files (snd (redo_prepare ''failed_spades.txt'' 8 (redo_world ''g2\<newline>g3\<newline>g4'')))
     ''redo_spades_commands.txt''
   = Some (File ''spades.py --restart-from k33 -k 21,33 --threads 1 --cov-cutoff 8 -o g2/g2_spades\<newline>spades.py --restart-from k21 -k 21 --threads 1 --cov-cutoff 8 -o g4/g4_spades\<newline>'')"
proof -
  have s: "str_int 8 = ''8''" "str_int 21 = ''21''" "str_int 33 = ''33''"
    by (simp_all add: str_int_def str_nat.simps digit_char_def)
  from redo_restart_commands [OF sample_prepare] show ?thesis
    by (simp add: sample_kmers s)
qed


lemma rerun_spades_after_prepare:
  assumes "redo_prepare genelist cov w = (Inr (duds, redos), w3)"
  shows "rerun_spades sh genelist cov cpu paired w =
     (case redo_classify redos ([], []) (redo_run sh (redo_parallel_cmd cpu) (length redos) w3) of
        (Inl e, w8) \<Rightarrow> (Inl e, w8)
      | (Inr (s, f), w8) \<Rightarrow> (Inr (f, duds), w8))"
  using assms
  by (simp add: rerun_spades_def rerun_spades_lists_def Let_def split: prod.splits sum.splits)


















text \<open>
  Claim C8. On an empty gene list \<open>rerun_spades\<close> returns an empty failure list and an
  empty list of duds, and the file system it leaves is the one the external command left
  when run on the two freshly written, empty files: no result file is copied.
\<close>

theorem rerun_spades_empty:
  assumes "read_genes (files w) genelist = Inr []"
    and "\<not> isdir (files w) ''redo_spades_commands.txt''"
    and "\<not> isdir (files w) ''spades_duds.txt''"
  shows "fst (rerun_spades sh genelist cov cpu paired w) = Inr ([], [])
     \<and> files (snd (rerun_spades sh genelist cov cpu paired w))
         = snd (sh (redo_parallel_cmd cpu)
             ((files w)(''redo_spades_commands.txt'' \<mapsto> File [], ''spades_duds.txt'' \<mapsto> File [])))"
proof -
  have prep: "redo_prepare genelist cov w =
      (Inr ([], []), w\<lparr>files := (files w)(''redo_spades_commands.txt'' \<mapsto> File [],
          ''spades_duds.txt'' \<mapsto> File [])\<rparr>)"
    using assms
    by (simp add: redo_prepare_def open_write_def write_text_def isdir_def file_append_def
        file_content_def)
  show ?thesis
    unfolding rerun_spades_after_prepare [OF prep] by (simp add: run_simps)
qed

lemma sample_empty_list: "read_genes (files (redo_world [])) ''failed_spades.txt'' = Inr []"
  by code_simp

lemma sample_no_dirs:
  "\<not> isdir (files (redo_world [])) ''redo_spades_commands.txt''"
  "\<not> isdir (files (redo_world [])) ''spades_duds.txt''"
  by code_simp+

theorem rerun_spades_empty_witness:
  "fst (rerun_spades (sample_shell redo_g2) ''failed_spades.txt'' 8 None True (redo_world []))
     = Inr ([], [])"
  using rerun_spades_empty [OF sample_empty_list sample_no_dirs, of "sample_shell redo_g2" 8 None True]
  by simp


subsection \<open>The exit code of the external run\<close>

lemma exit_zero_simps [simp]: "fst (exit_zero sh c f) = 0" "snd (exit_zero sh c f) = snd (sh c f)"
  by (simp_all add: exit_zero_def)

lemma initial_exit_code:
  "fst (spades_initial sh gl cov cpu paired kv w)
     = fst (spades_initial (exit_zero sh) gl cov cpu paired kv w)
   \<and> files (snd (spades_initial sh gl cov cpu paired kv w))
     = files (snd (spades_initial (exit_zero sh) gl cov cpu paired kv w))
   \<and> calls (snd (spades_initial sh gl cov cpu paired kv w))
     = calls (snd (spades_initial (exit_zero sh) gl cov cpu paired kv w))
   \<and> (\<exists>pre post.
         stderr (snd (spades_initial (exit_zero sh) gl cov cpu paired kv w)) = pre @ post
       \<and> stderr (snd (spades_initial sh gl cov cpu paired kv w))
           = pre @ (if (\<exists>genes. read_genes (files (log_removed w)) gl = Inr genes)
                       \<and> fst (sh (make_spades_cmd gl cov cpu paired kv False) (files (log_removed w))) \<noteq> 0
                    then [assembly_error_message] else []) @ post)"
proof (cases "read_genes (files (log_removed w)) gl")
  case (Inl e)
  have "\<exists>pre post. stderr (log_removed w) = pre @ post" by (metis append_Nil)
  with Inl show ?thesis by (simp add: spades_initial_def)
next
  case (Inr genes)
  let ?cmd = "make_spades_cmd gl cov cpu paired kv False"
  define w4 where "w4 = initial_run sh ?cmd (length genes) (log_removed w)"
  define v4 where "v4 = initial_run (exit_zero sh) ?cmd (length genes) (log_removed w)"
  define X where "X = stderr (log_removed w)
      @ [''Running SPAdes on '' @ str_int (int (length genes)) @ '' genes\<newline>'', ?cmd @ ''\<newline>'']"
  have fe: "files v4 = files w4" "files w4 = files v4" and ce: "calls v4 = calls w4"
    by (simp_all add: w4_def v4_def run_simps)
  have se: "stderr v4 = X"
    "stderr w4 = X @ (if fst (sh ?cmd (files (log_removed w))) \<noteq> 0 then [assembly_error_message] else [])"
    by (simp_all add: w4_def v4_def X_def run_simps)
  have A: "spades_initial sh gl cov cpu paired kv w =
      (case initial_classify genes ([], []) w4 of
         (Inl e, w5) \<Rightarrow> (Inl e, w5) | (Inr (s, f), w5) \<Rightarrow> (Inr f, w5))"
    using Inr by (simp add: spades_initial_def w4_def)
  have A0: "spades_initial (exit_zero sh) gl cov cpu paired kv w =
      (case initial_classify genes ([], []) v4 of
         (Inl e, w5) \<Rightarrow> (Inl e, w5) | (Inr (s, f), w5) \<Rightarrow> (Inr f, w5))"
    using Inr by (simp add: spades_initial_def v4_def)
  obtain r w5 where cw: "initial_classify genes ([], []) w4 = (r, w5)"
    by (cases "initial_classify genes ([], []) w4")
  obtain r0 v5 where cv: "initial_classify genes ([], []) v4 = (r0, v5)"
    by (cases "initial_classify genes ([], []) v4")
  from initial_classify_indep [OF fe(1), of genes "[]" "[]"] cw cv obtain out where
    i1: "r0 = r" "files v5 = files w5" "calls w5 = calls w4"
    "stderr w5 = stderr w4 @ out" "stderr v5 = stderr v4 @ out"
    by auto
  from initial_classify_indep [OF fe(2), of genes "[]" "[]"] cw cv
  have i2: "calls v5 = calls v4" by auto
  have sA: "snd (spades_initial sh gl cov cpu paired kv w) = w5"
    "snd (spades_initial (exit_zero sh) gl cov cpu paired kv w) = v5"
    "fst (spades_initial sh gl cov cpu paired kv w)
      = fst (spades_initial (exit_zero sh) gl cov cpu paired kv w)"
    using cw cv i1(1) by (auto simp: A A0 split: sum.splits prod.splits)
  have "stderr v5 = X @ out
      \<and> stderr w5 = X @ (if (\<exists>genes. read_genes (files (log_removed w)) gl = Inr genes)
                       \<and> fst (sh ?cmd (files (log_removed w))) \<noteq> 0
                    then [assembly_error_message] else []) @ out"
    using i1 se Inr by simp
  then have "\<exists>pre post. stderr v5 = pre @ post
      \<and> stderr w5 = pre @ (if (\<exists>genes. read_genes (files (log_removed w)) gl = Inr genes)
                       \<and> fst (sh ?cmd (files (log_removed w))) \<noteq> 0
                    then [assembly_error_message] else []) @ post"
    by blast
  with sA i1 i2 ce show ?thesis by simp
qed

lemma redo_exit_code:
  "fst (rerun_spades sh gl cov cpu paired w)
     = fst (rerun_spades (exit_zero sh) gl cov cpu paired w)
   \<and> files (snd (rerun_spades sh gl cov cpu paired w))
     = files (snd (rerun_spades (exit_zero sh) gl cov cpu paired w))
   \<and> calls (snd (rerun_spades sh gl cov cpu paired w))
     = calls (snd (rerun_spades (exit_zero sh) gl cov cpu paired w))
   \<and> (\<exists>pre post.
         stderr (snd (rerun_spades (exit_zero sh) gl cov cpu paired w)) = pre @ post
       \<and> stderr (snd (rerun_spades sh gl cov cpu paired w))
           = pre @ (if (\<exists>duds redos. fst (redo_prepare gl cov w) = Inr (duds, redos))
                       \<and> fst (sh (redo_parallel_cmd cpu) (files (snd (redo_prepare gl cov w)))) \<noteq> 0
                    then [assembly_error_message] else []) @ post)"
proof (cases "fst (redo_prepare gl cov w)")
  case (Inl e)
  then obtain w3 where p: "redo_prepare gl cov w = (Inl e, w3)"
    by (cases "redo_prepare gl cov w") simp
  then have r: "rerun_spades sh gl cov cpu paired w = (Inl e, w3)"
    "rerun_spades (exit_zero sh) gl cov cpu paired w = (Inl e, w3)"
    by (simp_all add: rerun_spades_def rerun_spades_lists_def)
  have "\<exists>pre post. stderr w3 = pre @ post" by (metis append_Nil)
  with p show ?thesis by (simp add: r)
next
  case (Inr dr)
  obtain duds redos where dr: "dr = (duds, redos)" by (cases dr)
  define w3 where "w3 = snd (redo_prepare gl cov w)"
  from Inr dr have prep: "redo_prepare gl cov w = (Inr (duds, redos), w3)"
    unfolding w3_def by (cases "redo_prepare gl cov w") simp
  let ?cmd = "redo_parallel_cmd cpu"
  define w7 where "w7 = redo_run sh ?cmd (length redos) w3"
  define v7 where "v7 = redo_run (exit_zero sh) ?cmd (length redos) w3"
  define X where "X = stderr w3
      @ [''Re-running SPAdes for '' @ str_int (int (length redos)) @ '' genes\<newline>'', ?cmd @ ''\<newline>'']"
  have fe: "files v7 = files w7" "files w7 = files v7" and ce: "calls v7 = calls w7"
    by (simp_all add: w7_def v7_def run_simps)
  have se: "stderr v7 = X"
    "stderr w7 = X @ (if fst (sh ?cmd (files w3)) \<noteq> 0 then [assembly_error_message] else [])"
    by (simp_all add: w7_def v7_def X_def run_simps)
  note A = rerun_spades_after_prepare [OF prep, of sh cpu paired, folded w7_def]
  note A0 = rerun_spades_after_prepare [OF prep, of "exit_zero sh" cpu paired, folded v7_def]
  obtain r w8 where cw: "redo_classify redos ([], []) w7 = (r, w8)"
    by (cases "redo_classify redos ([], []) w7")
  obtain r0 v8 where cv: "redo_classify redos ([], []) v7 = (r0, v8)"
    by (cases "redo_classify redos ([], []) v7")
  from redo_classify_indep [OF fe(1), of redos "[]" "[]"] cw cv obtain out where
    i1: "r0 = r" "files v8 = files w8" "calls w8 = calls w7"
    "stderr w8 = stderr w7 @ out" "stderr v8 = stderr v7 @ out"
    by auto
  from redo_classify_indep [OF fe(2), of redos "[]" "[]"] cw cv
  have i2: "calls v8 = calls v7" by auto
  have sA: "snd (rerun_spades sh gl cov cpu paired w) = w8"
    "snd (rerun_spades (exit_zero sh) gl cov cpu paired w) = v8"
    "fst (rerun_spades sh gl cov cpu paired w)
      = fst (rerun_spades (exit_zero sh) gl cov cpu paired w)"
    using cw cv i1(1) by (auto simp: A A0 split: sum.splits prod.splits)
  have "stderr v8 = X @ out
      \<and> stderr w8 = X @ (if (\<exists>duds redos. fst (redo_prepare gl cov w) = Inr (duds, redos))
                       \<and> fst (sh ?cmd (files (snd (redo_prepare gl cov w)))) \<noteq> 0
                    then [assembly_error_message] else []) @ out"
    using i1 se Inr dr by (simp add: w3_def)
  then have "\<exists>pre post. stderr v8 = pre @ post
      \<and> stderr w8 = pre @ (if (\<exists>duds redos. fst (redo_prepare gl cov w) = Inr (duds, redos))
                       \<and> fst (sh ?cmd (files (snd (redo_prepare gl cov w)))) \<noteq> 0
                    then [assembly_error_message] else []) @ post"
    by blast
  with sA i1 i2 ce show ?thesis by simp
qed

text \<open>
  The exit code of the parallel utility has one effect only. Compared with the same run
  of the external commands ending in exit code 0, each of the two functions returns the
  same value or raises the same error, leaves the same file system and runs the same
  commands; what it writes to standard error is the same, with the one warning message
  inserted when the external command was reached and its exit code is not 0.
\<close>

lemma exit_code_invariance:
  "(fst (spades_initial sh gl cov cpu paired kv w)
     = fst (spades_initial (exit_zero sh) gl cov cpu paired kv w)
   \<and> files (snd (spades_initial sh gl cov cpu paired kv w))
     = files (snd (spades_initial (exit_zero sh) gl cov cpu paired kv w))
   \<and> calls (snd (spades_initial sh gl cov cpu paired kv w))
     = calls (snd (spades_initial (exit_zero sh) gl cov cpu paired kv w))
   \<and> (\<exists>pre post.
         stderr (snd (spades_initial (exit_zero sh) gl cov cpu paired kv w)) = pre @ post
       \<and> stderr (snd (spades_initial sh gl cov cpu paired kv w))
           = pre @ (if (\<exists>genes. read_genes (files (log_removed w)) gl = Inr genes)
                       \<and> fst (sh (make_spades_cmd gl cov cpu paired kv False) (files (log_removed w))) \<noteq> 0
                    then [assembly_error_message] else []) @ post))
   \<and> (fst (rerun_spades sh gl cov cpu paired w)
     = fst (rerun_spades (exit_zero sh) gl cov cpu paired w)
   \<and> files (snd (rerun_spades sh gl cov cpu paired w))
     = files (snd (rerun_spades (exit_zero sh) gl cov cpu paired w))
   \<and> calls (snd (rerun_spades sh gl cov cpu paired w))
     = calls (snd (rerun_spades (exit_zero sh) gl cov cpu paired w))
   \<and> (\<exists>pre post.
         stderr (snd (rerun_spades (exit_zero sh) gl cov cpu paired w)) = pre @ post
       \<and> stderr (snd (rerun_spades sh gl cov cpu paired w))
           = pre @ (if (\<exists>duds redos. fst (redo_prepare gl cov w) = Inr (duds, redos))
                       \<and> fst (sh (redo_parallel_cmd cpu) (files (snd (redo_prepare gl cov w)))) \<noteq> 0
                    then [assembly_error_message] else []) @ post))"
  by (rule conjI [OF initial_exit_code redo_exit_code])

text \<open>
  Claim C9 says that with a non-zero exit code \<open>rerun_spades\<close> still classifies every
  gene and returns its failure list. In the run below the redo command ends with exit
  code 1, having assembled \<open>g2\<close> and not \<open>g4\<close>: the failure list would be \<open>g4\<close> alone. The
  function writes the warning and then raises the error of \<open>os.stat\<close> for the unformatted
  path of line 110; it returns no list. The exit code is not the cause: the same run
  ending in exit code 0 raises the same error.
\<close>

theorem rerun_spades_exit_code_raises:
  "fst (sample_shell redo_g2 (redo_parallel_cmd None)
      (files (snd (redo_prepare ''failed_spades.txt'' 8 (redo_world ''g2\<newline>g4''))))) = 1
   \<and> isfile (snd (sample_shell redo_g2 (redo_parallel_cmd None)
         (files (snd (redo_prepare ''failed_spades.txt'' 8 (redo_world ''g2\<newline>g4''))))))
       (result_path ''g2'')
   \<and> \<not> isfile (snd (sample_shell redo_g2 (redo_parallel_cmd None)
         (files (snd (redo_prepare ''failed_spades.txt'' 8 (redo_world ''g2\<newline>g4''))))))
       (result_path ''g4'')
   \<and> fst (rerun_spades (sample_shell redo_g2) ''failed_spades.txt'' 8 None True
         (redo_world ''g2\<newline>g4''))
       = Inl (OSError ''{}/{}_spades/contigs.fasta'')
   \<and> last (stderr (snd (rerun_spades (sample_shell redo_g2) ''failed_spades.txt'' 8 None True
         (redo_world ''g2\<newline>g4''))))
       = assembly_error_message
   \<and> fst (rerun_spades (exit_zero (sample_shell redo_g2)) ''failed_spades.txt'' 8 None True
         (redo_world ''g2\<newline>g4''))
       = Inl (OSError ''{}/{}_spades/contigs.fasta'')"
  by code_simp

subsection \<open>Top-level control\<close>

lemma redo_loop_calls: "calls (snd (redo_loop cov gs (d0, r0) w)) = calls w"
proof (induction gs arbitrary: d0 r0 w)
  case Nil
  show ?case by simp
next
  case (Cons x gs)
  show ?case
  proof (cases "list_kmers (files w) x")
    case (Inl e)
    then show ?thesis by simp
  next
    case (Inr ks)
    then show ?thesis by (simp add: Cons.IH Let_def)
  qed
qed

lemma redo_prepare_calls: "calls (snd (redo_prepare gl cov w)) = calls w"
proof (cases "read_genes (files w) gl")
  case (Inl e)
  then show ?thesis by (simp add: redo_prepare_def)
next
  case (Inr genes)
  show ?thesis
  proof (cases "isdir (files w) ''redo_spades_commands.txt''")
    case True
    with Inr show ?thesis by (simp add: redo_prepare_def open_write_def)
  next
    case False
    define w1 where "w1 = w\<lparr>files := (files w)(''redo_spades_commands.txt'' \<mapsto> File [])\<rparr>"
    have c1: "calls w1 = calls w" by (simp add: w1_def)
    obtain r w2 where loop: "redo_loop cov genes ([], []) w1 = (r, w2)"
      by (cases "redo_loop cov genes ([], []) w1")
    from redo_loop_calls [of cov genes "[]" "[]" w1] loop c1 have c2: "calls w2 = calls w" by simp
    from Inr False loop c2 show ?thesis
      by (auto simp: redo_prepare_def open_write_def write_text_def w1_def
          split: sum.splits prod.splits)
  qed
qed

lemma redo_classify_calls: "calls (snd (redo_classify gs (s0, f0) w)) = calls w"
  using redo_classify_indep [of w w gs s0 f0] by simp

lemma initial_classify_calls: "calls (snd (initial_classify gs (s0, f0) w)) = calls w"
  using initial_classify_indep [of w w gs s0 f0] by simp

lemma rerun_spades_calls:
  "calls (snd (rerun_spades sh gl cov cpu paired w)) = calls w
   \<or> calls (snd (rerun_spades sh gl cov cpu paired w)) = calls w @ [redo_parallel_cmd cpu]"
proof (cases "fst (redo_prepare gl cov w)")
  case (Inl e)
  then obtain w3 where p: "redo_prepare gl cov w = (Inl e, w3)"
    by (cases "redo_prepare gl cov w") simp
  with redo_prepare_calls [of gl cov w] show ?thesis
    by (simp add: rerun_spades_def rerun_spades_lists_def)
next
  case (Inr dr)
  obtain duds redos where dr: "dr = (duds, redos)" by (cases dr)
  from Inr dr obtain w3 where p: "redo_prepare gl cov w = (Inr (duds, redos), w3)"
    by (cases "redo_prepare gl cov w") simp
  from redo_prepare_calls [of gl cov w] p have c3: "calls w3 = calls w" by simp
  have "snd (rerun_spades sh gl cov cpu paired w)
      = snd (redo_classify redos ([], []) (redo_run sh (redo_parallel_cmd cpu) (length redos) w3))"
    unfolding rerun_spades_after_prepare [OF p] by (auto split: prod.splits sum.splits)
  then show ?thesis by (simp add: redo_classify_calls run_simps c3)
qed

lemma log_removed_calls: "calls (log_removed w) = calls w"
  by (simp add: log_removed_def os_remove_def)

lemma spades_initial_calls:
  "calls (snd (spades_initial sh gl cov cpu paired kv w)) = calls w
   \<or> calls (snd (spades_initial sh gl cov cpu paired kv w))
       = calls w @ [make_spades_cmd gl cov cpu paired kv False]"
proof (cases "read_genes (files (log_removed w)) gl")
  case (Inl e)
  then show ?thesis by (simp add: spades_initial_def log_removed_calls)
next
  case (Inr genes)
  have "snd (spades_initial sh gl cov cpu paired kv w)
      = snd (initial_classify genes ([], [])
          (initial_run sh (make_spades_cmd gl cov cpu paired kv False) (length genes) (log_removed w)))"
    using Inr by (auto simp: spades_initial_def Let_def split: prod.splits sum.splits)
  then show ?thesis by (simp add: initial_classify_calls run_simps log_removed_calls)
qed

lemma write_text_calls: "calls (snd (write_text p t w)) = calls w"
  by (simp add: write_text_def open_write_def)

lemma redo_cmd_None:
  "redo_parallel_cmd None = ''parallel --eta :::: redo_spades_commands.txt > spades_redo.log''"
  by (simp add: redo_parallel_cmd_def cpu_truthy_def)

lemma redo_cmd_Some_neq:
  assumes "n \<noteq> 0"
  shows "redo_parallel_cmd (Some n) \<noteq> ''parallel --eta :::: redo_spades_commands.txt > spades_redo.log''"
    and "redo_parallel_cmd (Some n) \<noteq> make_spades_cmd g cov cpu paired kv r"
  using assms
  by (simp_all add: redo_parallel_cmd_def cpu_truthy_def make_spades_cmd_def Let_def
      split: option.splits)

lemma main_calls:
  "\<exists>cs. calls (snd (main sh a w)) = calls w @ cs
     \<and> set cs \<subseteq> {make_spades_cmd (arg_genelist a) (arg_cov_cutoff a) (Some (arg_cpu a)) True (arg_kvals a) False,
                  ''parallel --eta :::: redo_spades_commands.txt > spades_redo.log''}"
proof (cases "isfile (files w) ''failed_spades.txt'' \<and> arg_redos_only a")
  case True
  then have "snd (main sh a w) = snd (rerun_spades sh ''failed_spades.txt'' 8 None True w)"
    by (auto simp: main_def split: prod.splits sum.splits)
  with rerun_spades_calls [of sh "''failed_spades.txt''" 8 None True w] show ?thesis
    by (auto simp: redo_cmd_None)
next
  case False
  let ?cmd = "make_spades_cmd (arg_genelist a) (arg_cov_cutoff a) (Some (arg_cpu a)) True (arg_kvals a) False"
  let ?redo = "''parallel --eta :::: redo_spades_commands.txt > spades_redo.log''"
  obtain r1 w1 where init: "spades_initial sh (arg_genelist a) (arg_cov_cutoff a) (Some (arg_cpu a))
      True (arg_kvals a) w = (r1, w1)"
    by (cases "spades_initial sh (arg_genelist a) (arg_cov_cutoff a) (Some (arg_cpu a)) True (arg_kvals a) w")
  from spades_initial_calls [of sh "arg_genelist a" "arg_cov_cutoff a" "Some (arg_cpu a)" True "arg_kvals a" w]
    init
  obtain c1 where c1: "calls w1 = calls w @ c1" "set c1 \<subseteq> {?cmd}" by auto
  show ?thesis
  proof (cases r1)
    case (Inl e)
    with False init c1 show ?thesis by (auto simp: main_def)
  next
    case (Inr failed1)
    show ?thesis
    proof (cases "failed1 = []")
      case True
      with False init Inr c1 show ?thesis by (auto simp: main_def)
    next
      case ne: False
      obtain r2 w2 where wt: "write_text ''failed_spades.txt'' (py_join ''\<newline>'' failed1) w1 = (r2, w2)"
        by (cases "write_text ''failed_spades.txt'' (py_join ''\<newline>'' failed1) w1")
      from write_text_calls [of "''failed_spades.txt''" "py_join ''\<newline>'' failed1" w1] wt
      have c2: "calls w2 = calls w1" by simp
      show ?thesis
      proof (cases r2)
        case (Inl e)
        with False init Inr ne wt c1 c2 show ?thesis by (auto simp: main_def)
      next
        case inr2: (Inr u)
        obtain r3 w3 where rr: "rerun_spades sh ''failed_spades.txt'' (arg_cov_cutoff a) None True w2 = (r3, w3)"
          by (cases "rerun_spades sh ''failed_spades.txt'' (arg_cov_cutoff a) None True w2")
        from rerun_spades_calls [of sh "''failed_spades.txt''" "arg_cov_cutoff a" None True w2] rr
        obtain c3 where c3: "calls w3 = calls w2 @ c3" "set c3 \<subseteq> {?redo}"
          by (auto simp: redo_cmd_None)
        have "calls (snd (main sh a w)) = calls w3"
          using False init Inr ne wt inr2 rr
          by (auto simp: main_def split: sum.splits prod.splits)
        with c1 c2 c3 have "calls (snd (main sh a w)) = calls w @ (c1 @ c3)"
          "set (c1 @ c3) \<subseteq> {?cmd, ?redo}" by auto
        then show ?thesis by blast
      qed
    qed
  qed
qed

text \<open>
  Claim C10. Whatever the command line, the commands \<open>main\<close> runs are, in this order
  and each at most once, the command of the initial run and the redo command without
  \<open>-j\<close>; the redo command with \<open>-j n\<close> is never run, for no \<open>n\<close>. On the redos-only
  branch \<open>main\<close> is \<open>rerun_spades\<close> with coverage cutoff 8 and no cpu limit, and the
  values of \<open>--cpu\<close> and \<open>--cov_cutoff\<close> make no difference.
\<close>

theorem main_redo_defaults:
  "(\<exists>cs. calls (snd (main sh a w)) = calls w @ cs
       \<and> set cs \<subseteq> {make_spades_cmd (arg_genelist a) (arg_cov_cutoff a) (Some (arg_cpu a)) True
                      (arg_kvals a) False,
                    ''parallel --eta :::: redo_spades_commands.txt > spades_redo.log''}
       \<and> (\<forall>n. n \<noteq> 0 \<longrightarrow> redo_parallel_cmd (Some n) \<notin> set cs))
   \<and> (isfile (files w) ''failed_spades.txt'' \<and> arg_redos_only a \<longrightarrow>
         snd (main sh a w) = snd (rerun_spades sh ''failed_spades.txt'' 8 None True w)
       \<and> fst (main sh a w)
           = (case fst (rerun_spades sh ''failed_spades.txt'' 8 None True w) of
                Inl e \<Rightarrow> Inl e | Inr r \<Rightarrow> Inr ())
       \<and> (\<forall>c v. main sh (a\<lparr>arg_cpu := c, arg_cov_cutoff := v\<rparr>) w = main sh a w))"
proof (intro conjI impI)
  from main_calls [of sh a w] obtain cs where
    cs: "calls (snd (main sh a w)) = calls w @ cs"
      "set cs \<subseteq> {make_spades_cmd (arg_genelist a) (arg_cov_cutoff a) (Some (arg_cpu a)) True
                      (arg_kvals a) False,
                    ''parallel --eta :::: redo_spades_commands.txt > spades_redo.log''}"
    by blast
  have "redo_parallel_cmd (Some n) \<notin> set cs" if "n \<noteq> 0" for n
  proof
    assume "redo_parallel_cmd (Some n) \<in> set cs"
    with cs(2) have "redo_parallel_cmd (Some n)
        = make_spades_cmd (arg_genelist a) (arg_cov_cutoff a) (Some (arg_cpu a)) True (arg_kvals a) False
      \<or> redo_parallel_cmd (Some n)
        = ''parallel --eta :::: redo_spades_commands.txt > spades_redo.log''"
      by blast
    with redo_cmd_Some_neq [OF that] show False by blast
  qed
  with cs show "\<exists>cs. calls (snd (main sh a w)) = calls w @ cs
       \<and> set cs \<subseteq> {make_spades_cmd (arg_genelist a) (arg_cov_cutoff a) (Some (arg_cpu a)) True
                      (arg_kvals a) False,
                    ''parallel --eta :::: redo_spades_commands.txt > spades_redo.log''}
       \<and> (\<forall>n. n \<noteq> 0 \<longrightarrow> redo_parallel_cmd (Some n) \<notin> set cs)"
    by blast
next
  assume "isfile (files w) ''failed_spades.txt'' \<and> arg_redos_only a"
  then show "snd (main sh a w) = snd (rerun_spades sh ''failed_spades.txt'' 8 None True w)"
    by (auto simp: main_def split: prod.splits sum.splits)
next
  assume "isfile (files w) ''failed_spades.txt'' \<and> arg_redos_only a"
  then show "fst (main sh a w)
           = (case fst (rerun_spades sh ''failed_spades.txt'' 8 None True w) of
                Inl e \<Rightarrow> Inl e | Inr r \<Rightarrow> Inr ())"
    by (auto simp: main_def split: prod.splits sum.splits)
next
  assume "isfile (files w) ''failed_spades.txt'' \<and> arg_redos_only a"
  then show "\<forall>c v. main sh (a\<lparr>arg_cpu := c, arg_cov_cutoff := v\<rparr>) w = main sh a w"
    by (simp add: main_def)
qed

lemma sample_redo_only_world: "isfile (files (redo_world ''g2'')) ''failed_spades.txt''"
  by code_simp

lemma sample_redo_only_calls:
  "calls (snd (rerun_spades (sample_shell id) ''failed_spades.txt'' 8 None True (redo_world ''g2'')))
     = [''parallel --eta :::: redo_spades_commands.txt > spades_redo.log'']"
  by code_simp

theorem main_redo_defaults_witness:
  "calls (snd (main (sample_shell id)
       \<lparr>arg_genelist = ''genes.txt'', arg_cpu = 4, arg_cov_cutoff = 10, arg_kvals = None,
        arg_redos_only = True\<rparr> (redo_world ''g2'')))
     = [''parallel --eta :::: redo_spades_commands.txt > spades_redo.log'']"
  using main_redo_defaults [of "sample_shell id"
        "\<lparr>arg_genelist = ''genes.txt'', arg_cpu = 4, arg_cov_cutoff = 10, arg_kvals = None,
          arg_redos_only = True\<rparr>" "redo_world ''g2''"]
    sample_redo_only_world sample_redo_only_calls
  by simp


lemma rerun_spades_disjoint:
  assumes "fst (rerun_spades sh gl cov cpu paired w) = Inr (failed, duds)"
  shows "set failed \<inter> set duds = {}"
proof -
  from assms obtain s r w' where run:
    "rerun_spades_lists sh gl cov cpu paired w = (Inr (s, failed, duds, r), w')"
    by (auto simp: rerun_spades_def split: prod.splits sum.splits)
  from rerun_spades_lists_Inr [OF run] obtain w3 where
    prep: "redo_prepare gl cov w = (Inr (duds, r), w3)"
    and cls: "redo_classify r ([], []) (redo_run sh (redo_parallel_cmd cpu) (length r) w3)
        = (Inr (s, failed), w')"
    by blast
  from redo_prepare_Inr [OF prep] obtain genes where
    d: "duds = filter (\<lambda>g. length (kmer_entries (files w) g) < 2) genes"
    and rr: "r = filter (\<lambda>g. \<not> length (kmer_entries (files w) g) < 2) genes"
    by blast
  from redo_classify_lists [OF cls] have "set failed \<subseteq> set r" by auto
  with d rr show ?thesis by auto
qed

text \<open>
  Claim C1 says that \<open>main\<close> exits with status 1 whenever a gene is left without result
  file after the redo pass, on the normal and on the redos-only path. Two runs show
  otherwise. With \<open>--redos_only\<close>, the redo pass returns \<open>g2\<close> as failed, and \<open>main\<close>
  returns all the same: the exit status is 0. Without it, \<open>g3\<close> fails the initial run and
  is a dud in the redo pass: \<open>main\<close> reports success and the exit status is 0, though
  \<open>g3\<close> has no result file.
\<close>

theorem main_exit_status_counterexample:
  "fst (rerun_spades (sample_shell id) ''failed_spades.txt'' 8 None True (redo_world ''g2''))
     = Inr ([''g2''], [])
   \<and> exit_status (fst (main (sample_shell id) (sample_args True) (redo_world ''g2''))) = 0
   \<and> \<not> isfile (files (snd (main (sample_shell id) (sample_args True) (redo_world ''g2''))))
         (result_path ''g2'')
   \<and> exit_status (fst (main (sample_shell id) (sample_args False) (sample_world ''g1\<newline>g3''))) = 0
   \<and> last (stderr (snd (main (sample_shell id) (sample_args False) (sample_world ''g1\<newline>g3''))))
       = ''All redos completed successfully!\<newline>''
   \<and> \<not> isfile (files (snd (main (sample_shell id) (sample_args False) (sample_world ''g1\<newline>g3''))))
         (result_path ''g3'')"
  by code_simp

text \<open>
  Claim C1, amended. On the normal path, when the initial pass returns: with no failed
  gene \<open>main\<close> returns at once, exit status 0. With failed genes, when their list is
  written and the redo pass returns its failure list and its duds: no dud is in the
  failure list; when the failure list is empty \<open>main\<close> writes the success message and the
  exit status is 0; when it is not empty \<open>main\<close> raises \<open>SystemExit(1)\<close> and the exit
  status is 1.
\<close>

theorem main_exit_status:
  assumes normal: "\<not> (isfile (files w) ''failed_spades.txt'' \<and> arg_redos_only a)"
    and init: "fst (spades_initial sh (arg_genelist a) (arg_cov_cutoff a) (Some (arg_cpu a)) True
        (arg_kvals a) w) = Inr failed1"
  shows "(failed1 = [] \<longrightarrow>
            exit_status (fst (main sh a w)) = 0
          \<and> snd (main sh a w) = snd (spades_initial sh (arg_genelist a) (arg_cov_cutoff a)
              (Some (arg_cpu a)) True (arg_kvals a) w))
     \<and> (\<forall>failed2 duds.
           failed1 \<noteq> []
         \<and> fst (write_text ''failed_spades.txt'' (py_join ''\<newline>'' failed1)
               (snd (spades_initial sh (arg_genelist a) (arg_cov_cutoff a) (Some (arg_cpu a)) True
                  (arg_kvals a) w))) = Inr ()
         \<and> fst (rerun_spades sh ''failed_spades.txt'' (arg_cov_cutoff a) None True
               (snd (write_text ''failed_spades.txt'' (py_join ''\<newline>'' failed1)
                  (snd (spades_initial sh (arg_genelist a) (arg_cov_cutoff a) (Some (arg_cpu a)) True
                     (arg_kvals a) w))))) = Inr (failed2, duds)
         \<longrightarrow> set failed2 \<inter> set duds = {}
           \<and> (failed2 = [] \<longrightarrow>
                  exit_status (fst (main sh a w)) = 0
                \<and> stderr (snd (main sh a w))
                    = stderr (snd (rerun_spades sh ''failed_spades.txt'' (arg_cov_cutoff a) None True
                        (snd (write_text ''failed_spades.txt'' (py_join ''\<newline>'' failed1)
                           (snd (spades_initial sh (arg_genelist a) (arg_cov_cutoff a)
                              (Some (arg_cpu a)) True (arg_kvals a) w))))))
                      @ [''All redos completed successfully!\<newline>''])
           \<and> (failed2 \<noteq> [] \<longrightarrow>
                  fst (main sh a w) = Inl (SystemExit 1)
                \<and> exit_status (fst (main sh a w)) = 1))"
proof -
  obtain w1 where i: "spades_initial sh (arg_genelist a) (arg_cov_cutoff a) (Some (arg_cpu a)) True
        (arg_kvals a) w = (Inr failed1, w1)"
    using init
    by (cases "spades_initial sh (arg_genelist a) (arg_cov_cutoff a) (Some (arg_cpu a)) True (arg_kvals a) w")
      simp
  have m: "main sh a w =
      (case spades_initial sh (arg_genelist a) (arg_cov_cutoff a) (Some (arg_cpu a)) True (arg_kvals a) w of
         (Inl e, w1) \<Rightarrow> (Inl e, w1)
       | (Inr spades_failed, w1) \<Rightarrow>
           if length spades_failed > 0 then
             (case write_text ''failed_spades.txt'' (py_join ''\<newline>'' spades_failed) w1 of
                (Inl e, w2) \<Rightarrow> (Inl e, w2)
              | (Inr u, w2) \<Rightarrow>
                  (case rerun_spades sh ''failed_spades.txt'' (arg_cov_cutoff a) None True w2 of
                     (Inl e, w3) \<Rightarrow> (Inl e, w3)
                   | (Inr (redo_failed, spades_duds), w3) \<Rightarrow>
                       if length redo_failed = 0
                       then (Inr (), stderr_write ''All redos completed successfully!\<newline>'' w3)
                       else (Inl (SystemExit 1), w3)))
           else (Inr (), w1))"
    by (simp only: main_def if_not_P [OF normal])
  have a: "exit_status (fst (main sh a w)) = 0 \<and> snd (main sh a w) = w1" if "failed1 = []"
    using i that by (simp add: m exit_status_def)
  have b: "set failed2 \<inter> set duds = {}
           \<and> (failed2 = [] \<longrightarrow>
                  exit_status (fst (main sh a w)) = 0
                \<and> stderr (snd (main sh a w))
                    = stderr (snd (rerun_spades sh ''failed_spades.txt'' (arg_cov_cutoff a) None True
                        (snd (write_text ''failed_spades.txt'' (py_join ''\<newline>'' failed1) w1))))
                      @ [''All redos completed successfully!\<newline>''])
           \<and> (failed2 \<noteq> [] \<longrightarrow>
                  fst (main sh a w) = Inl (SystemExit 1)
                \<and> exit_status (fst (main sh a w)) = 1)"
    if ne: "failed1 \<noteq> []"
      and wt: "fst (write_text ''failed_spades.txt'' (py_join ''\<newline>'' failed1) w1) = Inr ()"
      and rr: "fst (rerun_spades sh ''failed_spades.txt'' (arg_cov_cutoff a) None True
               (snd (write_text ''failed_spades.txt'' (py_join ''\<newline>'' failed1) w1)))
            = Inr (failed2, duds)"
    for failed2 duds
  proof -
    obtain w2 where w2: "write_text ''failed_spades.txt'' (py_join ''\<newline>'' failed1) w1 = (Inr (), w2)"
      using wt by (cases "write_text ''failed_spades.txt'' (py_join ''\<newline>'' failed1) w1") simp
    obtain w3 where w3: "rerun_spades sh ''failed_spades.txt'' (arg_cov_cutoff a) None True w2
        = (Inr (failed2, duds), w3)"
      using rr w2
      by (cases "rerun_spades sh ''failed_spades.txt'' (arg_cov_cutoff a) None True w2") simp
    from rr have d: "set failed2 \<inter> set duds = {}" by (rule rerun_spades_disjoint)
    from i ne w2 w3 d show ?thesis
      by (simp add: m exit_status_def)
  qed
  have s1: "snd (spades_initial sh (arg_genelist a) (arg_cov_cutoff a) (Some (arg_cpu a)) True
      (arg_kvals a) w) = w1"
    by (simp add: i)
  show ?thesis unfolding s1 using a b by blast
qed

lemma sample_initial_failed:
  "fst (spades_initial (sample_shell id) (arg_genelist (sample_args False))
      (arg_cov_cutoff (sample_args False)) (Some (arg_cpu (sample_args False))) True
      (arg_kvals (sample_args False)) (sample_world ''g1\<newline>g2\<newline>g3'')) = Inr [''g2'', ''g3'']"
  by code_simp

lemma sample_normal_path:
  "\<not> (isfile (files (sample_world ''g1\<newline>g2\<newline>g3'')) ''failed_spades.txt''
      \<and> arg_redos_only (sample_args False))"
  by code_simp

lemma sample_failed_written:
  "fst (write_text ''failed_spades.txt'' (py_join ''\<newline>'' [''g2'', ''g3''])
     (snd (spades_initial (sample_shell id) (arg_genelist (sample_args False))
        (arg_cov_cutoff (sample_args False)) (Some (arg_cpu (sample_args False))) True
        (arg_kvals (sample_args False)) (sample_world ''g1\<newline>g2\<newline>g3'')))) = Inr ()"
  by code_simp

lemma sample_redo_failed:
  "fst (rerun_spades (sample_shell id) ''failed_spades.txt'' (arg_cov_cutoff (sample_args False)) None True
     (snd (write_text ''failed_spades.txt'' (py_join ''\<newline>'' [''g2'', ''g3''])
        (snd (spades_initial (sample_shell id) (arg_genelist (sample_args False))
           (arg_cov_cutoff (sample_args False)) (Some (arg_cpu (sample_args False))) True
           (arg_kvals (sample_args False)) (sample_world ''g1\<newline>g2\<newline>g3''))))))
   = Inr ([''g2''], [''g3''])"
  by code_simp

theorem main_exit_status_witness:
  "exit_status (fst (main (sample_shell id) (sample_args False)
      (sample_world ''g1\<newline>g2\<newline>g3''))) = 1"
  using main_exit_status [OF sample_normal_path sample_initial_failed]
    sample_failed_written sample_redo_failed
  by auto

end
